theory Spec2Isabelle
  imports Main "HOL-Library.AList"
begin

section \<open>Data model (uvicoord/models.py)\<close>

text \<open>
  Python's unbounded integers are \<open>int\<close>, strings are \<open>string\<close>, an \<open>Optional\<close> field is an
  \<open>option\<close>. The enum \<open>PortStrategy\<close> is a datatype; the pydantic models are records.
  Field \<open>port\<close> occurs in both \<open>AppConfig\<close> and \<open>ActiveInstance\<close>; the one of \<open>AppConfig\<close>
  is written \<open>app_port\<close> here.
\<close>

datatype PortStrategy = DEDICATED | RANGE | LIST | STEPPED | ANY

record SteppedPortConfig =
  start :: int
  step :: int
  count :: int

record AppConfig =
  name :: string
  path :: string
  command :: string
  port_strategy :: PortStrategy
  app_port :: "int option"
  port_range :: "(int \<times> int) option"
  ports :: "int list option"
  port_step :: "SteppedPortConfig option"

record ActiveInstance =
  app_name :: string
  instance_id :: string
  port :: int
  pid :: int
  started_at :: string

record CoordinatorConfig =
  coordinator_port :: int
  default_port_range :: "int \<times> int"
  apps :: "(string \<times> AppConfig) list"

section \<open>Port strategy resolver (AppConfig.get_available_ports)\<close>

text \<open>
  \<open>list(range(a, b + 1))\<close> is \<open>[a..b]\<close> (empty when \<open>b < a\<close>); \<open>range(count)\<close> is
  \<open>[0..count - 1]\<close>. The truth tests of the source are written out: \<open>self.port\<close> is false for
  \<open>None\<close> and for \<open>0\<close>, a tuple of two elements and a model instance are always true, and
  \<open>self.ports or []\<close> is the list itself or \<open>[]\<close>.
\<close>

definition get_available_ports :: "AppConfig \<Rightarrow> int list" where
  "get_available_ports app =
     (case port_strategy app of
        DEDICATED \<Rightarrow> (case app_port app of
                        None \<Rightarrow> []
                      | Some p \<Rightarrow> if p \<noteq> 0 then [p] else [])
      | RANGE \<Rightarrow> (case port_range app of
                    None \<Rightarrow> []
                  | Some (a, b) \<Rightarrow> [a..b])
      | LIST \<Rightarrow> (case ports app of None \<Rightarrow> [] | Some ps \<Rightarrow> ps)
      | STEPPED \<Rightarrow> (case port_step app of
                      None \<Rightarrow> []
                    | Some st \<Rightarrow> map (\<lambda>i. start st + i * step st) [0..count st - 1])
      | ANY \<Rightarrow> [])"

text \<open>
  The invariant of the data model: exactly the parameters of the chosen strategy are populated,
  a dedicated port lies in \<open>[1024, 65535]\<close> (the field's \<open>ge\<close>/\<open>le\<close> bounds), and a stepped
  configuration has \<open>start\<close> in \<open>[1024, 65535]\<close>, \<open>step \<ge> 1\<close> and \<open>count \<ge> 1\<close>.
\<close>

definition stepped_ok :: "SteppedPortConfig \<Rightarrow> bool" where
  "stepped_ok st = (1024 \<le> start st \<and> start st \<le> 65535 \<and> 1 \<le> step st \<and> 1 \<le> count st)"

definition strategy_invariants :: "AppConfig \<Rightarrow> bool" where
  "strategy_invariants app =
     (case port_strategy app of
        DEDICATED \<Rightarrow> (case app_port app of None \<Rightarrow> False | Some p \<Rightarrow> 1024 \<le> p \<and> p \<le> 65535)
                     \<and> port_range app = None \<and> ports app = None \<and> port_step app = None
      | RANGE \<Rightarrow> app_port app = None \<and> port_range app \<noteq> None \<and> ports app = None
                     \<and> port_step app = None
      | LIST \<Rightarrow> app_port app = None \<and> port_range app = None \<and> ports app \<noteq> None
                     \<and> port_step app = None
      | STEPPED \<Rightarrow> app_port app = None \<and> port_range app = None \<and> ports app = None
                     \<and> (case port_step app of None \<Rightarrow> False | Some st \<Rightarrow> stepped_ok st)
      | ANY \<Rightarrow> app_port app = None \<and> port_range app = None \<and> ports app = None
                     \<and> port_step app = None)"

section \<open>The configuration document (PortManager._save_config, PortManager._load_config)\<close>

text \<open>
  The configuration file holds one JSON document. \<open>json.dump\<close> followed by \<open>json.load\<close> gives
  back the same Python value for the values that occur here (integers, strings, lists, and
  dictionaries with string keys), so the file is modelled by the value it holds. A dictionary
  is an association list in insertion order whose keys are distinct. Floating-point numbers are
  left out of the document type.
\<close>

datatype json =
    JNull
  | JBool bool
  | JInt int
  | JStr string
  | JList "json list"
  | JObj "(string \<times> json) list"

text \<open>
  Every exception that leaves a modelled function is a value. \<open>ValueError\<close> carries its message.
\<close>

datatype error = ValueError string | OverflowError | AttributeError | TypeError | ValidationError

definition bind_result :: "error + 'a \<Rightarrow> ('a \<Rightarrow> error + 'b) \<Rightarrow> error + 'b" where
  "bind_result r f = (case r of Inl e \<Rightarrow> Inl e | Inr x \<Rightarrow> f x)"

fun strategy_value :: "PortStrategy \<Rightarrow> string" where
  "strategy_value DEDICATED = ''dedicated''"
| "strategy_value RANGE = ''range''"
| "strategy_value LIST = ''list''"
| "strategy_value STEPPED = ''stepped''"
| "strategy_value ANY = ''any''"

text \<open>The dictionary \<open>app_data\<close> that \<open>_save_config\<close> builds for one application.\<close>

definition app_data :: "AppConfig \<Rightarrow> json" where
  "app_data app = JObj (
     [(''path'', JStr (path app)),
      (''command'', JStr (command app)),
      (''port_strategy'', JStr (strategy_value (port_strategy app)))]
     @ (case app_port app of None \<Rightarrow> [] | Some p \<Rightarrow> [(''port'', JInt p)])
     @ (case port_range app of None \<Rightarrow> []
        | Some (a, b) \<Rightarrow> [(''port_range'', JList [JInt a, JInt b])])
     @ (case ports app of None \<Rightarrow> [] | Some ps \<Rightarrow> [(''ports'', JList (map JInt ps))])
     @ (case port_step app of None \<Rightarrow> []
        | Some st \<Rightarrow> [(''port_step'', JObj [(''start'', JInt (start st)),
                                            (''step'', JInt (step st)),
                                            (''count'', JInt (count st))])]))"

text \<open>
  The document \<open>_save_config\<close> writes. The loop stores \<open>app_data\<close> under the dictionary key of
  each application, in the order of \<open>config.apps\<close>; the application's own \<open>name\<close> is not
  written.
\<close>

definition save_config :: "CoordinatorConfig \<Rightarrow> json" where
  "save_config cfg = JObj
     [(''coordinator_port'', JInt (coordinator_port cfg)),
      (''default_port_range'',
         (case default_port_range cfg of (a, b) \<Rightarrow> JList [JInt a, JInt b])),
      (''apps'', JObj (map (\<lambda>(nm, app). (nm, app_data app)) (apps cfg)))]"

text \<open>
  Loading validates through the pydantic models. The model accepts a value of the declared
  JSON type and checks the declared bounds; a value of another type is a \<open>ValidationError\<close>
  (pydantic's conversions between types, such as a numeric string for an integer, are not
  modelled; no document written by \<open>save_config\<close> contains one). Keys the models do not
  declare are ignored, as pydantic does by default.
\<close>

definition as_int :: "json \<Rightarrow> error + int" where
  "as_int j = (case j of JInt i \<Rightarrow> Inr i | _ \<Rightarrow> Inl ValidationError)"

definition as_str :: "json \<Rightarrow> error + string" where
  "as_str j = (case j of JStr s \<Rightarrow> Inr s | _ \<Rightarrow> Inl ValidationError)"

definition as_int_pair :: "json \<Rightarrow> error + int \<times> int" where
  "as_int_pair j = (case j of JList [JInt a, JInt b] \<Rightarrow> Inr (a, b) | _ \<Rightarrow> Inl ValidationError)"

fun as_ints :: "json list \<Rightarrow> error + int list" where
  "as_ints [] = Inr []"
| "as_ints (j # js) =
     bind_result (as_int j) (\<lambda>i. bind_result (as_ints js) (\<lambda>is. Inr (i # is)))"

definition strategy_of_value :: "string \<Rightarrow> error + PortStrategy" where
  "strategy_of_value v =
     (if v = ''dedicated'' then Inr DEDICATED
      else if v = ''range'' then Inr RANGE
      else if v = ''list'' then Inr LIST
      else if v = ''stepped'' then Inr STEPPED
      else if v = ''any'' then Inr ANY
      else Inl ValidationError)"

text \<open>\<open>SteppedPortConfig(**d)\<close>: \<open>start\<close> is required, \<open>step\<close> defaults to 1, \<open>count\<close> to 10.\<close>

definition SteppedPortConfig_init :: "(string \<times> json) list \<Rightarrow> error + SteppedPortConfig" where
  "SteppedPortConfig_init d =
     bind_result (case map_of d ''start'' of None \<Rightarrow> Inl ValidationError | Some j \<Rightarrow> as_int j)
       (\<lambda>s.
     bind_result (case map_of d ''step'' of None \<Rightarrow> Inr 1 | Some j \<Rightarrow> as_int j) (\<lambda>st.
     bind_result (case map_of d ''count'' of None \<Rightarrow> Inr 10 | Some j \<Rightarrow> as_int j) (\<lambda>c.
       if 1024 \<le> s \<and> s \<le> 65535 \<and> 1 \<le> st \<and> 1 \<le> c
       then Inr \<lparr>start = s, step = st, count = c\<rparr>
       else Inl ValidationError)))"

text \<open>
  One turn of the loop of \<open>_load_config\<close>: \<open>app_data["name"] = name\<close> (a \<open>TypeError\<close> when
  \<open>app_data\<close> is not a dictionary), the conversion of \<open>port_step\<close> when it is a dictionary,
  then \<open>AppConfig(**app_data)\<close>.
\<close>

definition load_app :: "string \<Rightarrow> json \<Rightarrow> error + AppConfig" where
  "load_app nm j =
     (case j of
        JObj d \<Rightarrow>
          bind_result (case map_of d ''port_step'' of
                         None \<Rightarrow> Inr None
                       | Some JNull \<Rightarrow> Inr None
                       | Some (JObj sd) \<Rightarrow> bind_result (SteppedPortConfig_init sd) (\<lambda>st. Inr (Some st))
                       | Some _ \<Rightarrow> Inl ValidationError) (\<lambda>pstep.
          bind_result (case map_of d ''path'' of None \<Rightarrow> Inl ValidationError | Some v \<Rightarrow> as_str v)
            (\<lambda>pth.
          bind_result (case map_of d ''command'' of
                         None \<Rightarrow> Inr ''uvicorn app.main:app --reload''
                       | Some v \<Rightarrow> as_str v) (\<lambda>cmd.
          bind_result (case map_of d ''port_strategy'' of
                         None \<Rightarrow> Inr ANY
                       | Some v \<Rightarrow> bind_result (as_str v) strategy_of_value) (\<lambda>strat.
          bind_result (case map_of d ''port'' of
                         None \<Rightarrow> Inr None
                       | Some JNull \<Rightarrow> Inr None
                       | Some v \<Rightarrow> bind_result (as_int v) (\<lambda>p.
                           if 1024 \<le> p \<and> p \<le> 65535 then Inr (Some p) else Inl ValidationError))
            (\<lambda>prt.
          bind_result (case map_of d ''port_range'' of
                         None \<Rightarrow> Inr None
                       | Some JNull \<Rightarrow> Inr None
                       | Some v \<Rightarrow> bind_result (as_int_pair v) (\<lambda>r. Inr (Some r))) (\<lambda>rng.
          bind_result (case map_of d ''ports'' of
                         None \<Rightarrow> Inr None
                       | Some JNull \<Rightarrow> Inr None
                       | Some (JList js) \<Rightarrow> bind_result (as_ints js) (\<lambda>ps. Inr (Some ps))
                       | Some _ \<Rightarrow> Inl ValidationError) (\<lambda>pts.
          Inr \<lparr>name = nm, path = pth, command = cmd, port_strategy = strat, app_port = prt,
               port_range = rng, ports = pts, port_step = pstep\<rparr>)))))))
      | _ \<Rightarrow> Inl TypeError)"

fun load_apps :: "(string \<times> json) list \<Rightarrow> error + (string \<times> AppConfig) list" where
  "load_apps [] = Inr []"
| "load_apps ((nm, j) # rest) =
     bind_result (load_app nm j) (\<lambda>app.
     bind_result (load_apps rest) (\<lambda>loaded. Inr ((nm, app) # loaded)))"

text \<open>
  \<open>_load_config\<close> on an existing file. \<open>data.get\<close> and \<open>.items()\<close> need dictionaries
  (\<open>AttributeError\<close> otherwise); absent keys take the defaults of the source.
\<close>

definition load_config :: "json \<Rightarrow> error + CoordinatorConfig" where
  "load_config doc =
     (case doc of
        JObj data \<Rightarrow>
          bind_result (case map_of data ''apps'' of
                         None \<Rightarrow> Inr []
                       | Some (JObj a) \<Rightarrow> load_apps a
                       | Some _ \<Rightarrow> Inl AttributeError) (\<lambda>loaded.
          bind_result (case map_of data ''default_port_range'' of
                         None \<Rightarrow> Inr (8100, 8199)
                       | Some v \<Rightarrow> as_int_pair v) (\<lambda>rng.
          bind_result (case map_of data ''coordinator_port'' of
                         None \<Rightarrow> Inr 9000
                       | Some v \<Rightarrow> as_int v) (\<lambda>cp.
          Inr \<lparr>coordinator_port = cp, default_port_range = rng, apps = loaded\<rparr>)))
      | _ \<Rightarrow> Inl AttributeError)"

text \<open>
  A configuration the pydantic models accept: the keys of \<open>apps\<close> are distinct (it is a
  dictionary) and every bounded field is within its bounds.
\<close>

definition app_fields_ok :: "AppConfig \<Rightarrow> bool" where
  "app_fields_ok app =
     ((case app_port app of None \<Rightarrow> True | Some p \<Rightarrow> 1024 \<le> p \<and> p \<le> 65535) \<and>
      (case port_step app of None \<Rightarrow> True | Some st \<Rightarrow> stepped_ok st))"

definition valid_config :: "CoordinatorConfig \<Rightarrow> bool" where
  "valid_config cfg =
     (distinct (map fst (apps cfg)) \<and> list_all (\<lambda>(nm, app). app_fields_ok app) (apps cfg))"

section \<open>The port manager (uvicoord/service/port_manager.py)\<close>

text \<open>
  What a call asks of the operating system is a parameter of the call: whether the process
  table has a process with a given pid, the outcome of binding a loopback socket to a port
  (\<open>True\<close> when \<open>bind\<close> succeeds, \<open>False\<close> when it raises \<open>OSError\<close>), the first eight
  characters of a fresh \<open>uuid4\<close> and the current time in ISO format. One \<open>Env\<close> stands for
  the system as one call sees it; two calls may see different systems.
\<close>

record Env =
  process_exists :: "int \<Rightarrow> bool"
  socket_bind :: "int \<Rightarrow> bool"
  uuid4_prefix :: string
  utc_now :: string

text \<open>
  \<open>psutil.pid_exists(pid)\<close>. The source calls it with the recorded pid and catches nothing.
  A pid of \<open>2 ^ 31\<close> or more does not fit the C integer of the system call, and the call
  raises \<open>OverflowError\<close>; for any other pid it returns what the process table says.
\<close>

definition pid_exists :: "Env \<Rightarrow> int \<Rightarrow> error + bool" where
  "pid_exists env p =
     (if 2147483648 \<le> p then Inl OverflowError else Inr (process_exists env p))"

text \<open>
  The state of a \<open>PortManager\<close>: its configuration, the dictionary \<open>active_instances\<close> (keyed
  by the string \<open>app_name:instance_id\<close>, in insertion order) and the document held by the file
  at \<open>config_path\<close>, if the file exists.
\<close>

record PortManager =
  config :: CoordinatorConfig
  active_instances :: "(string \<times> ActiveInstance) list"
  config_file :: "json option"

text \<open>
  Dictionary operations on association lists: \<open>k in d\<close>, \<open>d[k]\<close> (as an option), \<open>d[k] = v\<close>
  (in place when the key is present, appended otherwise), \<open>del d[k]\<close>, \<open>d.values()\<close>.
\<close>

definition dict_contains :: "('k \<times> 'v) list \<Rightarrow> 'k \<Rightarrow> bool" where
  "dict_contains d k = (k \<in> set (map fst d))"

definition dict_get :: "('k \<times> 'v) list \<Rightarrow> 'k \<Rightarrow> 'v option" where
  "dict_get d k = map_of d k"

definition dict_set :: "('k \<times> 'v) list \<Rightarrow> 'k \<Rightarrow> 'v \<Rightarrow> ('k \<times> 'v) list" where
  "dict_set d k v = AList.update k v d"

definition dict_del :: "('k \<times> 'v) list \<Rightarrow> 'k \<Rightarrow> ('k \<times> 'v) list" where
  "dict_del d k = AList.delete k d"

definition dict_values :: "('k \<times> 'v) list \<Rightarrow> 'v list" where
  "dict_values d = map snd d"

definition default_config :: CoordinatorConfig where
  "default_config = \<lparr>coordinator_port = 9000, default_port_range = (8100, 8199), apps = []\<rparr>"

text \<open>
  \<open>_load_config\<close> as the manager runs it: a missing file is created with the default
  configuration. The result is the configuration (or the exception) and the file afterwards.
\<close>

definition load_config_file :: "json option \<Rightarrow> (error + CoordinatorConfig) \<times> json option" where
  "load_config_file file =
     (case file of
        None \<Rightarrow> (Inr default_config, Some (save_config default_config))
      | Some doc \<Rightarrow> (load_config doc, Some doc))"

text \<open>\<open>PortManager.__init__\<close>: the registry of instances starts empty.\<close>

definition new_manager :: "json option \<Rightarrow> error + PortManager" where
  "new_manager file =
     (case load_config_file file of
        (Inl e, _) \<Rightarrow> Inl e
      | (Inr cfg, file') \<Rightarrow> Inr \<lparr>config = cfg, active_instances = [], config_file = file'\<rparr>)"

definition reload_config :: "PortManager \<Rightarrow> (error + unit) \<times> PortManager" where
  "reload_config s =
     (case load_config_file (config_file s) of
        (Inl e, file') \<Rightarrow> (Inl e, s\<lparr>config_file := file'\<rparr>)
      | (Inr cfg, file') \<Rightarrow> (Inr (), s\<lparr>config := cfg, config_file := file'\<rparr>))"

definition add_app :: "PortManager \<Rightarrow> AppConfig \<Rightarrow> PortManager" where
  "add_app s app =
     (let cfg = (config s)\<lparr>apps := dict_set (apps (config s)) (name app) app\<rparr>
      in s\<lparr>config := cfg, config_file := Some (save_config cfg)\<rparr>)"

definition remove_app :: "PortManager \<Rightarrow> string \<Rightarrow> bool \<times> PortManager" where
  "remove_app s nm =
     (if dict_contains (apps (config s)) nm
      then (let cfg = (config s)\<lparr>apps := dict_del (apps (config s)) nm\<rparr>
            in (True, s\<lparr>config := cfg, config_file := Some (save_config cfg)\<rparr>))
      else (False, s))"

definition get_app :: "PortManager \<Rightarrow> string \<Rightarrow> AppConfig option" where
  "get_app s nm = dict_get (apps (config s)) nm"

text \<open>
  \<open>is_port_available\<close> catches \<open>OSError\<close> only. For a port outside \<open>0..65535\<close> CPython's
  \<open>bind\<close> raises \<open>OverflowError\<close>, which is not an \<open>OSError\<close> and leaves the function.
\<close>

definition is_port_available :: "Env \<Rightarrow> int \<Rightarrow> error + bool" where
  "is_port_available env p =
     (if p < 0 \<or> 65535 < p then Inl OverflowError else Inr (socket_bind env p))"

definition default_range_ports :: "PortManager \<Rightarrow> int list" where
  "default_range_ports s = (case default_port_range (config s) of (a, b) \<Rightarrow> [a..b])"

definition get_ports_for_app :: "PortManager \<Rightarrow> string \<Rightarrow> int list" where
  "get_ports_for_app s nm =
     (case dict_get (apps (config s)) nm of
        None \<Rightarrow> default_range_ports s
      | Some app \<Rightarrow>
          (let candidates = get_available_ports app
           in if candidates = [] then default_range_ports s else candidates))"

definition get_used_ports :: "PortManager \<Rightarrow> int set" where
  "get_used_ports s = set (map port (dict_values (active_instances s)))"

definition instance_key :: "string \<Rightarrow> string \<Rightarrow> string" where
  "instance_key nm iid = nm @ '':'' @ iid"

text \<open>
  \<open>instance_id or str(uuid.uuid4())[:8]\<close>: \<open>None\<close> and the empty string are false.
\<close>

definition resolve_instance_id :: "Env \<Rightarrow> string option \<Rightarrow> string" where
  "resolve_instance_id env iid =
     (case iid of None \<Rightarrow> uuid4_prefix env | Some i \<Rightarrow> if i = [] then uuid4_prefix env else i)"

text \<open>
  The loop of \<open>allocate_port\<close> over the candidate ports: the first port that is not in
  \<open>used_ports\<close> and that \<open>is_port_available\<close> accepts; the probe runs only for ports not in
  \<open>used_ports\<close> (\<open>and\<close> evaluates its right operand only when the left one is true).
\<close>

fun find_port :: "Env \<Rightarrow> int set \<Rightarrow> int list \<Rightarrow> error + int option" where
  "find_port env used [] = Inr None"
| "find_port env used (p # ps) =
     (if p \<notin> used
      then (case is_port_available env p of
              Inl e \<Rightarrow> Inl e
            | Inr ok \<Rightarrow> if ok then Inr (Some p) else find_port env used ps)
      else find_port env used ps)"

definition exhaustion_message :: "string \<Rightarrow> string" where
  "exhaustion_message nm = ''No available ports for app '' @ [CHR 0x27] @ nm @ [CHR 0x27]"

text \<open>
  The second half of \<open>allocate_port\<close>, from \<open># Get candidate ports\<close> on. The state is returned
  with the result also when the call raises, since the caller's manager lives on.
\<close>

definition scan_and_insert ::
  "Env \<Rightarrow> PortManager \<Rightarrow> string \<Rightarrow> string \<Rightarrow> int \<Rightarrow> (error + int \<times> string) \<times> PortManager" where
  "scan_and_insert env s nm iid pd =
     (case find_port env (get_used_ports s) (get_ports_for_app s nm) of
        Inl e \<Rightarrow> (Inl e, s)
      | Inr None \<Rightarrow> (Inl (ValueError (exhaustion_message nm)), s)
      | Inr (Some p) \<Rightarrow>
          (Inr (p, iid),
           s\<lparr>active_instances :=
                dict_set (active_instances s) (instance_key nm iid)
                  \<lparr>app_name = nm, instance_id = iid, port = p, pid = pd,
                   started_at = utc_now env\<rparr>\<rparr>))"

definition allocate_port ::
  "Env \<Rightarrow> PortManager \<Rightarrow> string \<Rightarrow> string option \<Rightarrow> int
     \<Rightarrow> (error + int \<times> string) \<times> PortManager" where
  "allocate_port env s nm iid_opt pd =
     (let iid = resolve_instance_id env iid_opt;
          key = instance_key nm iid
      in case dict_get (active_instances s) key of
           Some existing \<Rightarrow>
             (case pid_exists env (pid existing) of
                Inl err \<Rightarrow> (Inl err, s)
              | Inr alive \<Rightarrow>
                  if alive
                  then (Inr (port existing, iid), s)
                  else scan_and_insert env
                         (s\<lparr>active_instances := dict_del (active_instances s) key\<rparr>) nm iid pd)
         | None \<Rightarrow> scan_and_insert env s nm iid pd)"

text \<open>
  The block \<open>if pid:\<close> of \<open>release_port\<close> and the final \<open>return False\<close>; \<open>None\<close> and \<open>0\<close> are
  false.
\<close>

definition release_by_pid :: "PortManager \<Rightarrow> string \<Rightarrow> int option \<Rightarrow> bool \<times> PortManager" where
  "release_by_pid s nm pid_opt =
     (case pid_opt of
        None \<Rightarrow> (False, s)
      | Some pd \<Rightarrow>
          if pd \<noteq> 0
          then (let to_remove =
                      map fst (filter (\<lambda>(key, inst). pid inst = pd \<and> app_name inst = nm)
                                 (active_instances s))
                in (0 < length to_remove,
                    s\<lparr>active_instances :=
                         fold (\<lambda>key d. dict_del d key) to_remove (active_instances s)\<rparr>))
          else (False, s))"

definition release_port ::
  "PortManager \<Rightarrow> string \<Rightarrow> string option \<Rightarrow> int option \<Rightarrow> bool \<times> PortManager" where
  "release_port s nm iid_opt pid_opt =
     (case iid_opt of
        None \<Rightarrow> release_by_pid s nm pid_opt
      | Some iid \<Rightarrow>
          if iid \<noteq> [] \<and> dict_contains (active_instances s) (instance_key nm iid)
          then (True, s\<lparr>active_instances := dict_del (active_instances s) (instance_key nm iid)\<rparr>)
          else release_by_pid s nm pid_opt)"

text \<open>
  The list \<open>dead_instances\<close> of \<open>cleanup_dead_instances\<close>: the comprehension asks
  \<open>psutil.pid_exists\<close> for every entry in turn, and an exception of one call ends it before
  anything is deleted.
\<close>

fun dead_keys :: "Env \<Rightarrow> (string \<times> ActiveInstance) list \<Rightarrow> error + string list" where
  "dead_keys env [] = Inr []"
| "dead_keys env ((key, inst) # rest) =
     bind_result (pid_exists env (pid inst)) (\<lambda>alive.
     bind_result (dead_keys env rest) (\<lambda>keys.
       Inr (if alive then keys else key # keys)))"

definition cleanup_dead_instances :: "Env \<Rightarrow> PortManager \<Rightarrow> (error + nat) \<times> PortManager" where
  "cleanup_dead_instances env s =
     (case dead_keys env (active_instances s) of
        Inl err \<Rightarrow> (Inl err, s)
      | Inr dead_instances \<Rightarrow>
          (Inr (length dead_instances),
           s\<lparr>active_instances :=
                fold (\<lambda>key d. dict_del d key) dead_instances (active_instances s)\<rparr>))"

definition get_active_instances ::
  "Env \<Rightarrow> PortManager \<Rightarrow> (error + ActiveInstance list) \<times> PortManager" where
  "get_active_instances env s =
     (case cleanup_dead_instances env s of
        (Inl err, s') \<Rightarrow> (Inl err, s')
      | (Inr n, s') \<Rightarrow> (Inr (dict_values (active_instances s')), s'))"

definition get_instances_for_app ::
  "Env \<Rightarrow> PortManager \<Rightarrow> string \<Rightarrow> (error + ActiveInstance list) \<times> PortManager" where
  "get_instances_for_app env s nm =
     (case cleanup_dead_instances env s of
        (Inl err, s') \<Rightarrow> (Inl err, s')
      | (Inr n, s') \<Rightarrow>
          (Inr (filter (\<lambda>inst. app_name inst = nm) (dict_values (active_instances s'))), s'))"

text \<open>
  A sequence of calls on one manager, each with the system as it is at that call. The calls
  run one after the other.
\<close>

datatype call =
    Allocate Env string "string option" int
  | Release string "string option" "int option"
  | Cleanup Env

fun step_call :: "PortManager \<Rightarrow> call \<Rightarrow> PortManager" where
  "step_call s (Allocate env nm iid pd) = snd (allocate_port env s nm iid pd)"
| "step_call s (Release nm iid pd) = snd (release_port s nm iid pd)"
| "step_call s (Cleanup env) = snd (cleanup_dead_instances env s)"

definition run_calls :: "PortManager \<Rightarrow> call list \<Rightarrow> PortManager" where
  "run_calls s calls = foldl step_call s calls"

text \<open>A manager as \<open>__init__\<close> leaves it, for any configuration and file.\<close>

definition fresh_manager :: "CoordinatorConfig \<Rightarrow> json option \<Rightarrow> PortManager" where
  "fresh_manager cfg file = \<lparr>config = cfg, active_instances = [], config_file = file\<rparr>"

section \<open>Invariants and concrete states\<close>

text \<open>
  The two invariants of the registry: it is a dictionary (its keys are distinct), and no two of
  its entries hold the same port.
\<close>

definition keys_distinct :: "PortManager \<Rightarrow> bool" where
  "keys_distinct s = distinct (map fst (active_instances s))"

definition ports_distinct :: "PortManager \<Rightarrow> bool" where
  "ports_distinct s = distinct (map port (dict_values (active_instances s)))"

text \<open>
  Concrete values on which the theorems are run: a system in which pid 100 is the only live
  process and port 8101 is the only one that cannot be bound, and the state two allocations
  reach from a new manager.
\<close>

definition env_w :: Env where
  "env_w = \<lparr>process_exists = (\<lambda>p. p = 100), socket_bind = (\<lambda>p. p \<noteq> 8101),
            uuid4_prefix = ''abcd1234'', utc_now = ''2026-01-01T00:00:00+00:00''\<rparr>"

definition calls_w :: "call list" where
  "calls_w = [Allocate env_w ''web'' None 100, Allocate env_w ''api'' (Some ''a1'') 100]"

definition state_w :: PortManager where
  "state_w =
     \<lparr>config = default_config,
      active_instances =
        [(''web:abcd1234'',
          \<lparr>app_name = ''web'', instance_id = ''abcd1234'', port = 8100, pid = 100,
           started_at = ''2026-01-01T00:00:00+00:00''\<rparr>),
         (''api:a1'',
          \<lparr>app_name = ''api'', instance_id = ''a1'', port = 8102, pid = 100,
           started_at = ''2026-01-01T00:00:00+00:00''\<rparr>)],
      config_file = None\<rparr>"

text \<open>
  A registry whose only entry is stale, in a system where that process is gone and no port can
  be bound.
\<close>

definition env_x :: Env where
  "env_x = \<lparr>process_exists = (\<lambda>p. False), socket_bind = (\<lambda>p. False),
            uuid4_prefix = ''0f3a9c1e'', utc_now = ''2026-01-02T00:00:00+00:00''\<rparr>"

definition state_x :: PortManager where
  "state_x =
     \<lparr>config = default_config,
      active_instances =
        [(''web:x'',
          \<lparr>app_name = ''web'', instance_id = ''x'', port = 8100, pid = 7,
           started_at = ''2026-01-01T00:00:00+00:00''\<rparr>)],
      config_file = None\<rparr>"

text \<open>
  A registry with one entry of a live process and two of a dead one, and a registry whose
  only entry belongs to application \<open>a\<close>, instance \<open>b:c\<close>.
\<close>

definition state_y :: PortManager where
  "state_y =
     \<lparr>config = default_config,
      active_instances =
        [(''web:x'',
          \<lparr>app_name = ''web'', instance_id = ''x'', port = 8100, pid = 100,
           started_at = ''2026-01-01T00:00:00+00:00''\<rparr>),
         (''web:y'',
          \<lparr>app_name = ''web'', instance_id = ''y'', port = 8102, pid = 7,
           started_at = ''2026-01-01T00:00:00+00:00''\<rparr>),
         (''api:z'',
          \<lparr>app_name = ''api'', instance_id = ''z'', port = 8103, pid = 7,
           started_at = ''2026-01-01T00:00:00+00:00''\<rparr>)],
      config_file = None\<rparr>"

definition state_c :: PortManager where
  "state_c =
     \<lparr>config = default_config,
      active_instances =
        [(''a:b:c'',
          \<lparr>app_name = ''a'', instance_id = ''b:c'', port = 8100, pid = 100,
           started_at = ''2026-01-01T00:00:00+00:00''\<rparr>)],
      config_file = None\<rparr>"

text \<open>
  Two allocations, the second with a pid that does not fit a C integer, and the state they
  reach from a new manager.
\<close>

definition calls_o :: "call list" where
  "calls_o = [Allocate env_w ''web'' (Some ''x'') 7,
              Allocate env_w ''api'' (Some ''z'') 2147483648]"

definition state_o :: PortManager where
  "state_o =
     \<lparr>config = default_config,
      active_instances =
        [(''web:x'',
          \<lparr>app_name = ''web'', instance_id = ''x'', port = 8100, pid = 7,
           started_at = ''2026-01-01T00:00:00+00:00''\<rparr>),
         (''api:z'',
          \<lparr>app_name = ''api'', instance_id = ''z'', port = 8102, pid = 2147483648,
           started_at = ''2026-01-01T00:00:00+00:00''\<rparr>)],
      config_file = None\<rparr>"

text \<open>
  What \<open>_load_config\<close> makes of a saved configuration: the same configuration with every
  application named by its key in \<open>apps\<close> (\<open>app_data["name"] = name\<close>).
\<close>

definition named_by_key :: "CoordinatorConfig \<Rightarrow> CoordinatorConfig" where
  "named_by_key cfg = cfg\<lparr>apps := map (\<lambda>(nm, app). (nm, app\<lparr>name := nm\<rparr>)) (apps cfg)\<rparr>"

text \<open>A configuration with a stepped and a dedicated application.\<close>

definition config_w :: CoordinatorConfig where
  "config_w =
     \<lparr>coordinator_port = 9000, default_port_range = (8100, 8199),
      apps =
        [(''web'',
          \<lparr>name = ''web'', path = ''/srv/web'', command = ''uvicorn app.main:app --reload'',
           port_strategy = STEPPED, app_port = None, port_range = None, ports = None,
           port_step = Some \<lparr>start = 8000, step = 10, count = 3\<rparr>\<rparr>),
         (''db'',
          \<lparr>name = ''db'', path = ''/srv/db'', command = ''uvicorn db:app'',
           port_strategy = DEDICATED, app_port = Some 8080, port_range = None, ports = None,
           port_step = None\<rparr>)]\<rparr>"

section \<open>Candidate ports of a strategy\<close>

text \<open>
  C5. For an \<open>AppConfig\<close> that satisfies the strategy invariants, \<open>get_available_ports\<close>
  returns the sequence the strategy defines: \<open>[p]\<close> for a dedicated port \<open>p\<close>; \<open>[a, a+1, ..., b]\<close>
  for the range \<open>(a, b)\<close>, of length \<open>b - a + 1\<close> when \<open>a \<le> b + 1\<close>; for a stepped configuration a list
  of \<open>count\<close> ports whose \<open>i\<close>-th element is \<open>start + i * step\<close>; the given list, in order, for a
  list; and the empty list for \<open>ANY\<close>.
\<close>

theorem get_available_ports_strategy:
  assumes "strategy_invariants app"
  shows "(\<forall>p. port_strategy app = DEDICATED \<and> app_port app = Some p
              \<longrightarrow> get_available_ports app = [p])
       \<and> (\<forall>a b. port_strategy app = RANGE \<and> port_range app = Some (a, b)
              \<longrightarrow> get_available_ports app = [a..b]
                \<and> (a \<le> b + 1 \<longrightarrow> int (length (get_available_ports app)) = b - a + 1))
       \<and> (\<forall>st. port_strategy app = STEPPED \<and> port_step app = Some st
              \<longrightarrow> int (length (get_available_ports app)) = count st
                \<and> (\<forall>i < nat (count st). get_available_ports app ! i = start st + int i * step st))
       \<and> (\<forall>ps. port_strategy app = LIST \<and> ports app = Some ps
              \<longrightarrow> get_available_ports app = ps)
       \<and> (port_strategy app = ANY \<longrightarrow> get_available_ports app = [])"
  using assms
  by (auto simp: get_available_ports_def strategy_invariants_def stepped_ok_def)

theorem get_available_ports_strategy_witness:
  "strategy_invariants
     \<lparr>name = ''web'', path = ''/srv/web'', command = ''uvicorn'', port_strategy = STEPPED,
      app_port = None, port_range = None, ports = None,
      port_step = Some \<lparr>start = 8000, step = 10, count = 3\<rparr>\<rparr>
   \<and> int (length (get_available_ports
       \<lparr>name = ''web'', path = ''/srv/web'', command = ''uvicorn'', port_strategy = STEPPED,
        app_port = None, port_range = None, ports = None,
        port_step = Some \<lparr>start = 8000, step = 10, count = 3\<rparr>\<rparr>)) = 3
   \<and> get_available_ports
       \<lparr>name = ''web'', path = ''/srv/web'', command = ''uvicorn'', port_strategy = STEPPED,
        app_port = None, port_range = None, ports = None,
        port_step = Some \<lparr>start = 8000, step = 10, count = 3\<rparr>\<rparr> ! 2 = 8020
   \<and> strategy_invariants
     \<lparr>name = ''api'', path = ''/srv/api'', command = ''uvicorn'', port_strategy = RANGE,
      app_port = None, port_range = Some (8010, 8012), ports = None, port_step = None\<rparr>
   \<and> get_available_ports
       \<lparr>name = ''api'', path = ''/srv/api'', command = ''uvicorn'', port_strategy = RANGE,
        app_port = None, port_range = Some (8010, 8012), ports = None, port_step = None\<rparr>
       = [8010, 8011, 8012]
   \<and> strategy_invariants
     \<lparr>name = ''db'', path = ''/srv/db'', command = ''uvicorn'', port_strategy = DEDICATED,
      app_port = Some 8080, port_range = None, ports = None, port_step = None\<rparr>
   \<and> get_available_ports
       \<lparr>name = ''db'', path = ''/srv/db'', command = ''uvicorn'', port_strategy = DEDICATED,
        app_port = Some 8080, port_range = None, ports = None, port_step = None\<rparr> = [8080]"
proof -
  let ?web = "\<lparr>name = ''web'', path = ''/srv/web'', command = ''uvicorn'',
      port_strategy = STEPPED, app_port = None, port_range = None, ports = None,
      port_step = Some \<lparr>start = 8000, step = 10, count = 3\<rparr>\<rparr>"
  let ?api = "\<lparr>name = ''api'', path = ''/srv/api'', command = ''uvicorn'',
      port_strategy = RANGE, app_port = None, port_range = Some (8010, 8012), ports = None,
      port_step = None\<rparr>"
  let ?db = "\<lparr>name = ''db'', path = ''/srv/db'', command = ''uvicorn'',
      port_strategy = DEDICATED, app_port = Some 8080, port_range = None, ports = None,
      port_step = None\<rparr>"
  have web: "strategy_invariants ?web"
    by (simp add: strategy_invariants_def stepped_ok_def)
  have api: "strategy_invariants ?api"
    by (simp add: strategy_invariants_def)
  have db: "strategy_invariants ?db"
    by (simp add: strategy_invariants_def)
  have upto: "[8010..8012] = [8010, 8011, 8012 :: int]"
    by (simp add: upto.simps)
  from get_available_ports_strategy[OF web] get_available_ports_strategy[OF api]
    get_available_ports_strategy[OF db] web api db upto
  show ?thesis by simp
qed

section \<open>Dictionaries\<close>

lemma dict_del_filter: "dict_del d k = filter (\<lambda>(k', v). k' \<noteq> k) d"
  by (induction d) (auto simp: dict_del_def)

lemma fold_dict_del: "fold (\<lambda>key d. dict_del d key) ks d = filter (\<lambda>(k, v). k \<notin> set ks) d"
proof (induction ks arbitrary: d)
  case Nil
  then show ?case by simp
next
  case (Cons k ks)
  have "filter (\<lambda>(k', v). k' \<notin> set ks) (filter (\<lambda>(k', v). k' \<noteq> k) d)
        = filter (\<lambda>(k', v). k' \<notin> set (k # ks)) d"
    by (induction d) auto
  with Cons show ?case by (simp add: dict_del_filter)
qed

lemma distinct_key_unique:
  "distinct (map fst d) \<Longrightarrow> (k, v) \<in> set d \<Longrightarrow> (k, w) \<in> set d \<Longrightarrow> v = w"
  by (meson eq_key_imp_eq_value)

lemma key_of_selected:
  assumes "distinct (map fst d)" and "(k, v) \<in> set d"
  shows "k \<in> set (map fst (filter P d)) \<longleftrightarrow> P (k, v)"
proof
  assume "k \<in> set (map fst (filter P d))"
  then obtain w where w: "(k, w) \<in> set d" "P (k, w)" by auto
  with assms have "w = v" using distinct_key_unique by fastforce
  with w show "P (k, v)" by simp
next
  assume "P (k, v)"
  with assms(2) show "k \<in> set (map fst (filter P d))" by force
qed

lemma remove_selected:
  assumes "distinct (map fst d)"
  shows "fold (\<lambda>key d. dict_del d key) (map fst (filter P d)) d = filter (\<lambda>kv. \<not> P kv) d"
proof -
  have "filter (\<lambda>(k, v). k \<notin> set (map fst (filter P d))) d = filter (\<lambda>kv. \<not> P kv) d"
  proof (rule filter_cong[OF refl])
    fix kv assume mem: "kv \<in> set d"
    obtain k v where kv: "kv = (k, v)" by (cases kv)
    from mem kv have "(k, v) \<in> set d" by simp
    from key_of_selected[OF assms this, of P] kv
    show "(case kv of (k, v) \<Rightarrow> k \<notin> set (map fst (filter P d))) = (\<not> P kv)"
      by simp
  qed
  then show ?thesis by (simp add: fold_dict_del)
qed

lemma dict_set_absent: "\<not> dict_contains d k \<Longrightarrow> dict_set d k v = d @ [(k, v)]"
  by (induction d) (auto simp: dict_set_def dict_contains_def)

lemma dict_get_None: "dict_get d k = None \<longleftrightarrow> \<not> dict_contains d k"
  by (simp add: dict_get_def dict_contains_def map_of_eq_None_iff)

lemma dict_contains_del: "\<not> dict_contains (dict_del d k) k"
  by (auto simp: dict_contains_def dict_del_filter)

section \<open>The scan over the candidate ports\<close>

lemma find_port_Some:
  "find_port env used ps = Inr (Some p) \<Longrightarrow>
     p \<in> set ps \<and> p \<notin> used \<and> 0 \<le> p \<and> p \<le> 65535 \<and> socket_bind env p"
  by (induction ps) (auto simp: is_port_available_def split: if_splits sum.splits)

lemma find_port_None_iff:
  "find_port env used ps = Inr None \<longleftrightarrow>
     (\<forall>p \<in> set ps. p \<in> used \<or> (0 \<le> p \<and> p \<le> 65535 \<and> \<not> socket_bind env p))"
  by (induction ps) (auto simp: is_port_available_def split: if_splits sum.splits)

section \<open>Invariants of the registry\<close>

lemma pid_exists_cases:
  obtains (raises) err where "pid_exists env p = Inl err"
  | (alive) "pid_exists env p = Inr True"
  | (dead) "pid_exists env p = Inr False"
  by (cases "pid_exists env p") auto

lemma allocate_port_absent:
  assumes "dict_get (active_instances s) (instance_key nm (resolve_instance_id env iid)) = None"
  shows "allocate_port env s nm iid pd = scan_and_insert env s nm (resolve_instance_id env iid) pd"
  using assms by (simp add: allocate_port_def Let_def)

lemma allocate_port_existing_raises:
  assumes "dict_get (active_instances s) (instance_key nm (resolve_instance_id env iid)) = Some e"
    and "pid_exists env (pid e) = Inl err"
  shows "allocate_port env s nm iid pd = (Inl err, s)"
  using assms by (simp add: allocate_port_def Let_def)

lemma allocate_port_existing_alive:
  assumes "dict_get (active_instances s) (instance_key nm (resolve_instance_id env iid)) = Some e"
    and "pid_exists env (pid e) = Inr True"
  shows "allocate_port env s nm iid pd = (Inr (port e, resolve_instance_id env iid), s)"
  using assms by (simp add: allocate_port_def Let_def)

lemma allocate_port_existing_dead:
  assumes "dict_get (active_instances s) (instance_key nm (resolve_instance_id env iid)) = Some e"
    and "pid_exists env (pid e) = Inr False"
  shows "allocate_port env s nm iid pd
           = scan_and_insert env
               (s\<lparr>active_instances := dict_del (active_instances s)
                    (instance_key nm (resolve_instance_id env iid))\<rparr>)
               nm (resolve_instance_id env iid) pd"
  using assms by (simp add: allocate_port_def Let_def)

lemma resolve_instance_id_Some: "i \<noteq> [] \<Longrightarrow> resolve_instance_id env (Some i) = i"
  by (simp add: resolve_instance_id_def)

lemma distinct_ports_filter:
  "distinct (map port (dict_values d)) \<Longrightarrow> distinct (map port (dict_values (filter P d)))"
  by (induction d) (auto simp: dict_values_def)

lemma distinct_keys_filter:
  "distinct (map fst d) \<Longrightarrow> distinct (map fst (filter P d))"
  by (simp add: distinct_map_filter)

lemma scan_and_insert_inv:
  assumes "keys_distinct s" "ports_distinct s"
    and "\<not> dict_contains (active_instances s) (instance_key nm iid)"
  shows "keys_distinct (snd (scan_and_insert env s nm iid pd))
       \<and> ports_distinct (snd (scan_and_insert env s nm iid pd))"
proof (cases "find_port env (get_used_ports s) (get_ports_for_app s nm)")
  case (Inl e)
  with assms show ?thesis by (simp add: scan_and_insert_def)
next
  case (Inr r)
  show ?thesis
  proof (cases r)
    case None
    with Inr assms show ?thesis by (simp add: scan_and_insert_def)
  next
    case (Some p)
    with Inr have "p \<notin> get_used_ports s" using find_port_Some by blast
    with Inr Some assms show ?thesis
      by (auto simp: scan_and_insert_def dict_set_absent keys_distinct_def ports_distinct_def
          get_used_ports_def dict_values_def dict_contains_def)
  qed
qed

lemma allocate_port_inv:
  assumes "keys_distinct s" "ports_distinct s"
  shows "keys_distinct (snd (allocate_port env s nm iid pd))
       \<and> ports_distinct (snd (allocate_port env s nm iid pd))"
proof (cases "dict_get (active_instances s) (instance_key nm (resolve_instance_id env iid))")
  case None
  then have "\<not> dict_contains (active_instances s) (instance_key nm (resolve_instance_id env iid))"
    by (simp add: dict_get_None)
  from scan_and_insert_inv[OF assms this, where env = env and pd = pd]
  show ?thesis by (simp add: allocate_port_absent[OF None])
next
  case (Some e)
  show ?thesis
  proof (cases rule: pid_exists_cases[of env "pid e"])
    case (raises err)
    with assms show ?thesis by (simp add: allocate_port_existing_raises[OF Some raises])
  next
    case alive
    with assms show ?thesis by (simp add: allocate_port_existing_alive[OF Some alive])
  next
    case dead
    let ?key = "instance_key nm (resolve_instance_id env iid)"
    let ?s1 = "s\<lparr>active_instances := dict_del (active_instances s) ?key\<rparr>"
    have k: "keys_distinct ?s1" using assms(1)
      by (simp add: keys_distinct_def dict_del_filter distinct_keys_filter)
    have p: "ports_distinct ?s1" using assms(2)
      by (simp add: ports_distinct_def dict_del_filter distinct_ports_filter)
    have a: "\<not> dict_contains (active_instances ?s1) ?key"
      by (simp add: dict_contains_del)
    from scan_and_insert_inv[OF k p a, where env = env and pd = pd]
    show ?thesis by (simp add: allocate_port_existing_dead[OF Some dead])
  qed
qed

lemma release_by_pid_inv:
  assumes "keys_distinct s" "ports_distinct s"
  shows "keys_distinct (snd (release_by_pid s nm pd)) \<and> ports_distinct (snd (release_by_pid s nm pd))"
  using assms
  by (auto simp: release_by_pid_def keys_distinct_def ports_distinct_def fold_dict_del
      distinct_keys_filter distinct_ports_filter Let_def split: option.splits)

lemma release_port_inv:
  assumes "keys_distinct s" "ports_distinct s"
  shows "keys_distinct (snd (release_port s nm iid pd)) \<and> ports_distinct (snd (release_port s nm iid pd))"
proof -
  have "keys_distinct (s\<lparr>active_instances := dict_del (active_instances s) k\<rparr>)
      \<and> ports_distinct (s\<lparr>active_instances := dict_del (active_instances s) k\<rparr>)" for k
    using assms
    by (simp add: keys_distinct_def ports_distinct_def dict_del_filter
        distinct_keys_filter distinct_ports_filter)
  with release_by_pid_inv[OF assms] show ?thesis
    by (simp add: release_port_def split: option.splits)
qed

lemma cleanup_inv:
  assumes "keys_distinct s" "ports_distinct s"
  shows "keys_distinct (snd (cleanup_dead_instances env s))
       \<and> ports_distinct (snd (cleanup_dead_instances env s))"
  using assms
  by (simp add: cleanup_dead_instances_def keys_distinct_def ports_distinct_def fold_dict_del
      distinct_keys_filter distinct_ports_filter split: sum.splits)

lemma step_call_inv:
  assumes "keys_distinct s" "ports_distinct s"
  shows "keys_distinct (step_call s c) \<and> ports_distinct (step_call s c)"
  using allocate_port_inv[OF assms] release_port_inv[OF assms] cleanup_inv[OF assms]
  by (cases c) simp_all

lemma run_calls_inv:
  assumes "keys_distinct s" "ports_distinct s"
  shows "keys_distinct (run_calls s calls) \<and> ports_distinct (run_calls s calls)"
  using assms
proof (induction calls arbitrary: s)
  case Nil
  then show ?case by (simp add: run_calls_def)
next
  case (Cons c calls)
  from step_call_inv[OF Cons.prems] Cons.IH[of "step_call s c"]
  show ?case by (simp add: run_calls_def)
qed

lemma fresh_manager_inv: "keys_distinct (fresh_manager cfg file) \<and> ports_distinct (fresh_manager cfg file)"
  by (simp add: fresh_manager_def keys_distinct_def ports_distinct_def dict_values_def)

section \<open>What a successful allocation returns\<close>

lemma scan_and_insert_Inr:
  assumes "scan_and_insert env s nm iid pd = (Inr (p, i), s')"
  shows "i = iid \<and> p \<notin> get_used_ports s \<and> p \<in> set (get_ports_for_app s nm)
       \<and> socket_bind env p
       \<and> s' = s\<lparr>active_instances :=
                   dict_set (active_instances s) (instance_key nm iid)
                     \<lparr>app_name = nm, instance_id = iid, port = p, pid = pd,
                      started_at = utc_now env\<rparr>\<rparr>"
proof (cases "find_port env (get_used_ports s) (get_ports_for_app s nm)")
  case (Inl e)
  with assms show ?thesis by (simp add: scan_and_insert_def)
next
  case (Inr r)
  show ?thesis
  proof (cases r)
    case None
    with Inr assms show ?thesis by (simp add: scan_and_insert_def)
  next
    case (Some q)
    with Inr assms have "q = p" by (simp add: scan_and_insert_def)
    with Inr Some find_port_Some[of env "get_used_ports s" "get_ports_for_app s nm" p] assms
    show ?thesis by (auto simp: scan_and_insert_def)
  qed
qed

lemma used_port_of_entry:
  "(k, e) \<in> set (active_instances s) \<Longrightarrow> port e \<in> get_used_ports s"
  by (force simp: get_used_ports_def dict_values_def)

lemma distinct_ports_entries:
  assumes "ports_distinct s"
    and "(k, e) \<in> set (active_instances s)" and "(k', e') \<in> set (active_instances s)"
    and "port e = port e'"
  shows "k = k'"
proof -
  from assms(1) have "inj_on (\<lambda>kv. port (snd kv)) (set (active_instances s))"
    by (simp add: ports_distinct_def dict_values_def distinct_map comp_def)
  from inj_onD[OF this _ assms(2,3)] assms(4) show ?thesis by simp
qed

lemma allocate_port_other_entries:
  assumes inv: "ports_distinct s"
    and res: "allocate_port env s nm iid pd = (Inr (p, i), s')"
    and mem: "(k, e) \<in> set (active_instances s)" and other: "k \<noteq> instance_key nm i"
  shows "port e \<noteq> p"
proof (cases "dict_get (active_instances s) (instance_key nm (resolve_instance_id env iid))")
  case None
  with res have r: "scan_and_insert env s nm (resolve_instance_id env iid) pd = (Inr (p, i), s')"
    by (simp add: allocate_port_absent)
  from scan_and_insert_Inr[OF r] used_port_of_entry[OF mem] show ?thesis by auto
next
  case (Some ex)
  let ?key = "instance_key nm (resolve_instance_id env iid)"
  show ?thesis
  proof (cases rule: pid_exists_cases[of env "pid ex"])
    case (raises err)
    with res show ?thesis by (simp add: allocate_port_existing_raises[OF Some raises])
  next
    case alive
    with res have eq: "p = port ex" "i = resolve_instance_id env iid"
      by (simp_all add: allocate_port_existing_alive[OF Some alive])
    from Some have "(?key, ex) \<in> set (active_instances s)"
      by (simp add: dict_get_def map_of_SomeD)
    from distinct_ports_entries[OF inv mem this] eq other show ?thesis by auto
  next
    case dead
    let ?s1 = "s\<lparr>active_instances := dict_del (active_instances s) ?key\<rparr>"
    from res
    have r: "scan_and_insert env ?s1 nm (resolve_instance_id env iid) pd = (Inr (p, i), s')"
      by (simp add: allocate_port_existing_dead[OF Some dead])
    from scan_and_insert_Inr[OF r] have i: "i = resolve_instance_id env iid"
      and p: "p \<notin> get_used_ports ?s1" by simp_all
    from mem other i have "(k, e) \<in> set (active_instances ?s1)"
      by (simp add: dict_del_filter)
    from used_port_of_entry[OF this] p show ?thesis by auto
  qed
qed

section \<open>No two entries share a port\<close>

text \<open>
  C1. After any sequence of \<open>allocate_port\<close>, \<open>release_port\<close> and \<open>cleanup_dead_instances\<close>
  calls on a new manager, run one after the other, no two entries of the registry have the
  same port. A successful \<open>allocate_port\<close> in such a state returns a port that no entry under
  another key holds, and the registry it leaves has no two entries with the same port either.
\<close>

theorem registry_ports_never_collide:
  "ports_distinct (run_calls (fresh_manager cfg file) calls)
   \<and> (\<forall>env nm iid pd p i s'.
         allocate_port env (run_calls (fresh_manager cfg file) calls) nm iid pd = (Inr (p, i), s')
         \<longrightarrow> ports_distinct s'
           \<and> (\<forall>(k, e) \<in> set (active_instances (run_calls (fresh_manager cfg file) calls)).
                 k \<noteq> instance_key nm i \<longrightarrow> port e \<noteq> p))"
proof -
  let ?s = "run_calls (fresh_manager cfg file) calls"
  have inv: "keys_distinct ?s \<and> ports_distinct ?s"
    using run_calls_inv fresh_manager_inv by blast
  have "ports_distinct s' \<and> (\<forall>(k, e) \<in> set (active_instances ?s). k \<noteq> instance_key nm i \<longrightarrow> port e \<noteq> p)"
    if res: "allocate_port env ?s nm iid pd = (Inr (p, i), s')" for env nm iid pd p i s'
  proof -
    from inv allocate_port_inv[of ?s env nm iid pd] res have "ports_distinct s'" by simp
    moreover from inv allocate_port_other_entries[OF _ res]
    have "\<forall>(k, e) \<in> set (active_instances ?s). k \<noteq> instance_key nm i \<longrightarrow> port e \<noteq> p"
      by blast
    ultimately show ?thesis by simp
  qed
  with inv show ?thesis by blast
qed

lemmas eval_defs =
  run_calls_def fresh_manager_def allocate_port_def scan_and_insert_def get_ports_for_app_def
  default_range_ports_def default_config_def dict_get_def dict_set_def dict_del_def
  dict_contains_def dict_values_def is_port_available_def pid_exists_def bind_result_def
  instance_key_def resolve_instance_id_def get_used_ports_def get_available_ports_def Let_def
  release_port_def release_by_pid_def cleanup_dead_instances_def get_active_instances_def
  get_instances_for_app_def exhaustion_message_def

lemma run_calls_w: "run_calls (fresh_manager default_config None) calls_w = state_w"
  by (simp add: eval_defs calls_w_def env_w_def state_w_def)

theorem registry_ports_never_collide_witness:
  "ports_distinct (run_calls (fresh_manager default_config None) calls_w)
   \<and> fst (allocate_port env_w (run_calls (fresh_manager default_config None) calls_w)
            ''db'' (Some ''d'') 7) = Inr (8103, ''d'')
   \<and> map (\<lambda>(k, e). port e)
        (active_instances (run_calls (fresh_manager default_config None) calls_w)) = [8100, 8102]"
proof -
  have a: "fst (allocate_port env_w state_w ''db'' (Some ''d'') 7) = Inr (8103, ''d'')"
    by (simp add: eval_defs env_w_def state_w_def)
  from registry_ports_never_collide[of default_config None calls_w] a run_calls_w
  show ?thesis by (simp add: state_w_def)
qed

section \<open>Allocating again for a live instance\<close>

text \<open>
  C2. In a state where the key of \<open>(app_name, instance_id)\<close> is registered and the recorded pid
  is alive (\<open>psutil.pid_exists\<close> returns \<open>True\<close> for it), \<open>allocate_port\<close> with that application and instance id returns the port of the
  registered entry with the same instance id, and leaves the manager as it was: no entry is
  added, the registry has the same size. (An instance id that reaches the registry is never
  empty: \<open>allocate_port\<close> replaces an empty one by a generated id.)
\<close>

theorem allocate_port_idempotent:
  assumes "i \<noteq> []"
    and "dict_get (active_instances s) (instance_key nm i) = Some e"
    and "pid_exists env (pid e) = Inr True"
  shows "allocate_port env s nm (Some i) pd = (Inr (port e, i), s)
       \<and> length (active_instances (snd (allocate_port env s nm (Some i) pd)))
           = length (active_instances s)"
  using assms allocate_port_existing_alive[of s nm env "Some i" e pd]
  by (simp add: resolve_instance_id_Some)

theorem allocate_port_idempotent_witness:
  "''a1'' \<noteq> []
   \<and> dict_get (active_instances state_w) (instance_key ''api'' ''a1'')
       = Some \<lparr>app_name = ''api'', instance_id = ''a1'', port = 8102, pid = 100,
               started_at = ''2026-01-01T00:00:00+00:00''\<rparr>
   \<and> pid_exists env_w 100 = Inr True
   \<and> allocate_port env_w state_w ''api'' (Some ''a1'') 100 = (Inr (8102, ''a1''), state_w)"
proof -
  let ?e = "\<lparr>app_name = ''api'', instance_id = ''a1'', port = 8102, pid = 100,
             started_at = ''2026-01-01T00:00:00+00:00''\<rparr>"
  have h1: "''a1'' \<noteq> []" by simp
  have h2: "dict_get (active_instances state_w) (instance_key ''api'' ''a1'') = Some ?e"
    by (simp add: state_w_def dict_get_def instance_key_def)
  have h3: "pid_exists env_w (pid ?e) = Inr True" by (simp add: env_w_def pid_exists_def)
  from allocate_port_idempotent[OF h1 h2 h3, of 100] h2 h3 show ?thesis by simp
qed

text \<open>
  Two calls in a row: when the first call succeeds and the recorded pid is alive at the
  second call, the second call returns what the first returned and changes nothing.
\<close>

lemma dict_get_set_same: "dict_get (dict_set d k v) k = Some v"
  by (simp add: dict_get_def dict_set_def update_conv')

lemma allocate_port_registers:
  assumes "allocate_port env s nm iid pd = (Inr (p, i), s')"
  shows "i = resolve_instance_id env iid
       \<and> (\<exists>e. dict_get (active_instances s') (instance_key nm i) = Some e \<and> port e = p)"
proof (cases "dict_get (active_instances s) (instance_key nm (resolve_instance_id env iid))")
  case None
  with assms have "scan_and_insert env s nm (resolve_instance_id env iid) pd = (Inr (p, i), s')"
    by (simp add: allocate_port_absent)
  from scan_and_insert_Inr[OF this] show ?thesis by (simp add: dict_get_set_same)
next
  case (Some ex)
  show ?thesis
  proof (cases rule: pid_exists_cases[of env "pid ex"])
    case (raises err)
    with assms show ?thesis by (simp add: allocate_port_existing_raises[OF Some raises])
  next
    case alive
    with Some assms show ?thesis by (auto simp: allocate_port_existing_alive[OF Some alive])
  next
    case dead
    with assms
    have "scan_and_insert env
            (s\<lparr>active_instances := dict_del (active_instances s)
                 (instance_key nm (resolve_instance_id env iid))\<rparr>)
            nm (resolve_instance_id env iid) pd = (Inr (p, i), s')"
      by (simp add: allocate_port_existing_dead[OF Some dead])
    from scan_and_insert_Inr[OF this] show ?thesis by (simp add: dict_get_set_same)
  qed
qed

lemma allocate_port_twice:
  assumes first: "allocate_port env s nm iid pd = (Inr (p, i), s')"
    and "i \<noteq> []"
    and alive: "\<And>e. dict_get (active_instances s') (instance_key nm i) = Some e
                  \<Longrightarrow> pid_exists env' (pid e) = Inr True"
  shows "allocate_port env' s' nm (Some i) pd' = (Inr (p, i), s')"
proof -
  from allocate_port_registers[OF first] obtain e
    where e: "dict_get (active_instances s') (instance_key nm i) = Some e" "port e = p"
    by blast
  from allocate_port_existing_alive[of s' nm env' "Some i" e pd'] e alive[OF e(1)] assms(2)
  show ?thesis by (simp add: resolve_instance_id_Some)
qed

section \<open>A live entry is not rewritten\<close>

text \<open>
  C10. When \<open>allocate_port\<close> is called with an instance id whose key has a registered entry
  with a live pid (\<open>psutil.pid_exists\<close> returns \<open>True\<close> for it), the stored \<open>ActiveInstance\<close> stays as it is: the entry under the key is the
  same record, with its \<open>pid\<close> and \<open>started_at\<close>, whatever pid the caller passes and whatever
  the clock says, and no other entry changes.
\<close>

theorem allocate_port_keeps_live_entry:
  assumes "i \<noteq> []"
    and "dict_get (active_instances s) (instance_key nm i) = Some e"
    and "pid_exists env (pid e) = Inr True"
  shows "dict_get (active_instances (snd (allocate_port env s nm (Some i) pd)))
           (instance_key nm i) = Some e
       \<and> active_instances (snd (allocate_port env s nm (Some i) pd)) = active_instances s"
  using assms allocate_port_existing_alive[of s nm env "Some i" e pd]
  by (simp add: resolve_instance_id_Some)

theorem allocate_port_keeps_live_entry_witness:
  "dict_get (active_instances (snd (allocate_port env_w state_w ''api'' (Some ''a1'') 4242)))
     (instance_key ''api'' ''a1'')
     = Some \<lparr>app_name = ''api'', instance_id = ''a1'', port = 8102, pid = 100,
             started_at = ''2026-01-01T00:00:00+00:00''\<rparr>
   \<and> pid_exists env_w 100 = Inr True \<and> (4242 :: int) \<noteq> 100"
proof -
  let ?e = "\<lparr>app_name = ''api'', instance_id = ''a1'', port = 8102, pid = 100,
             started_at = ''2026-01-01T00:00:00+00:00''\<rparr>"
  have h1: "''a1'' \<noteq> []" by simp
  have h2: "dict_get (active_instances state_w) (instance_key ''api'' ''a1'') = Some ?e"
    by (simp add: state_w_def dict_get_def instance_key_def)
  have h3: "pid_exists env_w (pid ?e) = Inr True" by (simp add: env_w_def pid_exists_def)
  from allocate_port_keeps_live_entry[OF h1 h2 h3, of 4242] h2 h3 show ?thesis by simp
qed

section \<open>Exhaustion\<close>

lemma dict_del_absent: "\<not> dict_contains d k \<Longrightarrow> dict_del d k = d"
  by (induction d) (auto simp: dict_del_def dict_contains_def)

lemma scan_and_insert_exhausted:
  assumes "\<forall>p \<in> set (get_ports_for_app s nm).
             p \<in> get_used_ports s \<or> (0 \<le> p \<and> p \<le> 65535 \<and> \<not> socket_bind env p)"
  shows "scan_and_insert env s nm iid pd = (Inl (ValueError (exhaustion_message nm)), s)"
  using assms find_port_None_iff[of env "get_used_ports s" "get_ports_for_app s nm"]
  by (simp add: scan_and_insert_def)

lemma scan_and_insert_Inl: "scan_and_insert env s nm iid pd = (Inl err, s') \<Longrightarrow> s' = s"
  by (auto simp: scan_and_insert_def split: sum.splits option.splits)

text \<open>
  C3, as the code has it. Let \<open>key\<close> be the key of the call. When the key has no entry, or
  has one whose recorded pid \<open>psutil.pid_exists\<close> reports dead, and every candidate port is held
  by an entry under another key or is a port in \<open>0..65535\<close> that cannot be bound,
  \<open>allocate_port\<close> fails with the \<open>ValueError\<close> whose message names the application. No entry is added and every entry under another key is kept; the
  registry it leaves is the one before the call without the entry under \<open>key\<close> (the caller's own
  stale entry, discarded before the scan), hence the same registry when the key had no entry.
\<close>

theorem allocate_port_exhaustion:
  assumes stale: "\<forall>e. dict_get (active_instances s) (instance_key nm (resolve_instance_id env iid))
                        = Some e \<longrightarrow> pid_exists env (pid e) = Inr False"
    and none: "\<forall>p \<in> set (get_ports_for_app s nm).
                 p \<in> get_used_ports
                       (s\<lparr>active_instances := dict_del (active_instances s)
                            (instance_key nm (resolve_instance_id env iid))\<rparr>)
                 \<or> (0 \<le> p \<and> p \<le> 65535 \<and> \<not> socket_bind env p)"
  shows "allocate_port env s nm iid pd =
           (Inl (ValueError (''No available ports for app '' @ [CHR 0x27] @ nm @ [CHR 0x27])),
            s\<lparr>active_instances :=
                 filter (\<lambda>(k, e). k \<noteq> instance_key nm (resolve_instance_id env iid))
                   (active_instances s)\<rparr>)
       \<and> (\<not> dict_contains (active_instances s) (instance_key nm (resolve_instance_id env iid))
            \<longrightarrow> snd (allocate_port env s nm iid pd) = s)"
proof -
  let ?key = "instance_key nm (resolve_instance_id env iid)"
  let ?s1 = "s\<lparr>active_instances := dict_del (active_instances s) ?key\<rparr>"
  have ports: "get_ports_for_app ?s1 nm = get_ports_for_app s nm"
    by (simp add: get_ports_for_app_def default_range_ports_def Let_def split: option.splits)
  from none ports
  have scan: "scan_and_insert env ?s1 nm (resolve_instance_id env iid) pd
                = (Inl (ValueError (exhaustion_message nm)), ?s1)"
    using scan_and_insert_exhausted[of ?s1 nm env] by simp
  have res: "allocate_port env s nm iid pd = (Inl (ValueError (exhaustion_message nm)), ?s1)"
  proof (cases "dict_get (active_instances s) ?key")
    case None
    then have "?s1 = s" by (simp add: dict_get_None dict_del_absent)
    with scan show ?thesis by (simp add: allocate_port_absent[OF None])
  next
    case (Some e)
    with stale have "pid_exists env (pid e) = Inr False" by simp
    from allocate_port_existing_dead[OF Some this] scan show ?thesis by simp
  qed
  have "\<not> dict_contains (active_instances s) ?key \<Longrightarrow> ?s1 = s"
    by (simp add: dict_del_absent)
  with res show ?thesis by (simp add: exhaustion_message_def dict_del_filter)
qed

theorem allocate_port_exhaustion_counterexample:
  "fst (allocate_port env_x state_x ''web'' (Some ''x'') 9)
     = Inl (ValueError (''No available ports for app '' @ [CHR 0x27] @ ''web'' @ [CHR 0x27]))
   \<and> active_instances state_x \<noteq> []
   \<and> active_instances (snd (allocate_port env_x state_x ''web'' (Some ''x'') 9)) = []"
  by (simp add: eval_defs env_x_def state_x_def)

theorem allocate_port_exhaustion_witness:
  "pid_exists env_x 7 = Inr False
   \<and> get_ports_for_app state_x ''web'' = [8100..8199]
   \<and> \<not> socket_bind env_x 8100
   \<and> allocate_port env_x state_x ''web'' (Some ''x'') 9 =
       (Inl (ValueError (''No available ports for app '' @ [CHR 0x27] @ ''web'' @ [CHR 0x27])),
        state_x\<lparr>active_instances := []\<rparr>)"
proof -
  have key: "instance_key ''web'' (resolve_instance_id env_x (Some ''x'')) = ''web:x''"
    by (simp add: instance_key_def resolve_instance_id_def)
  have dead: "pid_exists env_x 7 = Inr False"
    by (simp add: env_x_def pid_exists_def)
  have stale: "\<forall>e. dict_get (active_instances state_x)
                      (instance_key ''web'' (resolve_instance_id env_x (Some ''x''))) = Some e
                    \<longrightarrow> pid_exists env_x (pid e) = Inr False"
    unfolding key using dead by (auto simp: state_x_def dict_get_def)
  have cands: "get_ports_for_app state_x ''web'' = [8100..8199]"
    by (simp add: get_ports_for_app_def default_range_ports_def state_x_def default_config_def
        dict_get_def)
  have none: "\<forall>p \<in> set (get_ports_for_app state_x ''web'').
                p \<in> get_used_ports
                      (state_x\<lparr>active_instances := dict_del (active_instances state_x)
                           (instance_key ''web'' (resolve_instance_id env_x (Some ''x'')))\<rparr>)
                \<or> (0 \<le> p \<and> p \<le> 65535 \<and> \<not> socket_bind env_x p)"
    unfolding cands by (auto simp: env_x_def)
  from allocate_port_exhaustion[OF stale none, of 9] key cands dead
  show ?thesis by (simp add: env_x_def state_x_def)
qed

section \<open>The sweep of dead instances\<close>

lemma pid_exists_queryable:
  "p < 2147483648 \<Longrightarrow> pid_exists env p = Inr (process_exists env p)"
  by (simp add: pid_exists_def)

lemma pid_exists_large: "2147483648 \<le> p \<Longrightarrow> pid_exists env p = Inl OverflowError"
  by (simp add: pid_exists_def)

lemma dead_keys_queryable:
  assumes "\<forall>kv \<in> set d. pid (snd kv) < 2147483648"
  shows "dead_keys env d
           = Inr (map fst (filter (\<lambda>(key, inst). pid_exists env (pid inst) = Inr False) d))"
  using assms
  by (induction d) (auto simp: pid_exists_queryable bind_result_def)

lemma dead_keys_raises:
  assumes "kv \<in> set d" and "2147483648 \<le> pid (snd kv)"
  shows "dead_keys env d = Inl OverflowError"
  using assms
proof (induction d)
  case Nil
  then show ?case by simp
next
  case (Cons x d)
  obtain key inst where x: "x = (key, inst)" by (cases x)
  show ?case
  proof (cases "2147483648 \<le> pid inst")
    case True
    then show ?thesis by (simp add: x pid_exists_large bind_result_def)
  next
    case False
    with Cons.prems x have "kv \<in> set d" by auto
    from Cons.IH[OF this Cons.prems(2)] False show ?thesis
      by (simp add: x pid_exists_queryable bind_result_def)
  qed
qed

lemma filter_not_dead:
  assumes "\<forall>kv \<in> set d. pid (snd kv) < 2147483648"
  shows "filter (\<lambda>kv. \<not> (case kv of (key, inst) \<Rightarrow> pid_exists env (pid inst) = Inr False)) d
           = filter (\<lambda>(key, inst). pid_exists env (pid inst) = Inr True) d"
  using assms by (intro filter_cong) (auto simp: pid_exists_queryable)

lemma length_filter_split:
  assumes "\<forall>kv \<in> set d. pid (snd kv) < 2147483648"
  shows "length (filter (\<lambda>(key, inst). pid_exists env (pid inst) = Inr False) d)
           + length (filter (\<lambda>(key, inst). pid_exists env (pid inst) = Inr True) d) = length d"
  using assms by (induction d) (auto simp: pid_exists_queryable)

text \<open>
  Where every recorded pid is below \<open>2 ^ 31\<close>, on a registry that is a dictionary:
  \<open>cleanup_dead_instances\<close> keeps exactly the entries whose recorded pid is alive, in their order
  and unchanged, removes the others and returns the number of entries it removed;
  \<open>get_active_instances\<close> and \<open>get_instances_for_app\<close> run this sweep first and read the swept
  registry, so every instance they return has a live pid.
\<close>

lemma cleanup_sweep_queryable:
  assumes "keys_distinct s"
    and "\<forall>kv \<in> set (active_instances s). pid (snd kv) < 2147483648"
  shows "cleanup_dead_instances env s
           = (Inr (length (filter (\<lambda>(key, inst). pid_exists env (pid inst) = Inr False)
                             (active_instances s))),
              s\<lparr>active_instances :=
                   filter (\<lambda>(key, inst). pid_exists env (pid inst) = Inr True)
                     (active_instances s)\<rparr>)
       \<and> get_active_instances env s
           = (Inr (map snd (filter (\<lambda>(key, inst). pid_exists env (pid inst) = Inr True)
                              (active_instances s))),
              s\<lparr>active_instances :=
                   filter (\<lambda>(key, inst). pid_exists env (pid inst) = Inr True)
                     (active_instances s)\<rparr>)
       \<and> get_instances_for_app env s nm
           = (Inr (filter (\<lambda>inst. app_name inst = nm)
                     (map snd (filter (\<lambda>(key, inst). pid_exists env (pid inst) = Inr True)
                                 (active_instances s)))),
              s\<lparr>active_instances :=
                   filter (\<lambda>(key, inst). pid_exists env (pid inst) = Inr True)
                     (active_instances s)\<rparr>)
       \<and> length (filter (\<lambda>(key, inst). pid_exists env (pid inst) = Inr False)
                   (active_instances s))
           + length (filter (\<lambda>(key, inst). pid_exists env (pid inst) = Inr True)
                       (active_instances s))
           = length (active_instances s)"
proof -
  let ?dead = "\<lambda>(key, inst). pid_exists env (pid inst) = Inr False"
  let ?live = "\<lambda>(key, inst). pid_exists env (pid inst) = Inr True"
  have rem: "fold (\<lambda>key d. dict_del d key) (map fst (filter ?dead (active_instances s)))
               (active_instances s) = filter ?live (active_instances s)"
    using remove_selected[of "active_instances s" ?dead] assms(1)
      filter_not_dead[OF assms(2), of env]
    by (simp add: keys_distinct_def)
  have sweep: "cleanup_dead_instances env s
           = (Inr (length (filter ?dead (active_instances s))),
              s\<lparr>active_instances := filter ?live (active_instances s)\<rparr>)"
    by (simp add: cleanup_dead_instances_def dead_keys_queryable[OF assms(2)] rem)
  from sweep length_filter_split[OF assms(2), of env] show ?thesis
    by (simp add: get_active_instances_def get_instances_for_app_def dict_values_def)
qed

text \<open>
  Where some recorded pid is \<open>2 ^ 31\<close> or more, the sweep and both reads raise and remove
  nothing.
\<close>

lemma cleanup_raises_on_large_pid:
  assumes "kv \<in> set (active_instances s)" and "2147483648 \<le> pid (snd kv)"
  shows "cleanup_dead_instances env s = (Inl OverflowError, s)
       \<and> get_active_instances env s = (Inl OverflowError, s)
       \<and> get_instances_for_app env s nm = (Inl OverflowError, s)"
  using dead_keys_raises[OF assms, of env]
  by (simp add: cleanup_dead_instances_def get_active_instances_def get_instances_for_app_def)

text \<open>
  C4. \<open>cleanup_dead_instances\<close> asks \<open>psutil.pid_exists\<close> for every recorded pid and catches
  nothing, and \<open>allocate_port\<close> records whatever pid it is given. After an allocation for the
  dead process 7 and one with pid \<open>2 ^ 31\<close>, \<open>cleanup_dead_instances\<close> raises \<open>OverflowError\<close>
  and removes nothing, so the entry of the dead process stays in the registry, and
  \<open>get_active_instances\<close> and \<open>get_instances_for_app\<close> raise as well.
\<close>

theorem cleanup_dead_instances_overflow:
  "run_calls (fresh_manager default_config None) calls_o = state_o
   \<and> pid_exists env_w 7 = Inr False
   \<and> map (\<lambda>(key, inst). (key, pid inst)) (active_instances state_o)
       = [(''web:x'', 7), (''api:z'', 2147483648)]
   \<and> cleanup_dead_instances env_w state_o = (Inl OverflowError, state_o)
   \<and> get_active_instances env_w state_o = (Inl OverflowError, state_o)
   \<and> get_instances_for_app env_w state_o ''web'' = (Inl OverflowError, state_o)"
  by (simp add: eval_defs calls_o_def state_o_def env_w_def)

section \<open>Releasing a port\<close>

lemma release_by_pid_filter:
  assumes "keys_distinct s" and "q \<noteq> 0"
  shows "release_by_pid s nm (Some q)
           = (\<exists>kv \<in> set (active_instances s). pid (snd kv) = q \<and> app_name (snd kv) = nm,
              s\<lparr>active_instances :=
                   filter (\<lambda>(key, inst). \<not> (pid inst = q \<and> app_name inst = nm))
                     (active_instances s)\<rparr>)"
proof -
  let ?P = "\<lambda>(key, inst). pid inst = q \<and> app_name inst = nm"
  have rem: "fold (\<lambda>key d. dict_del d key) (map fst (filter ?P (active_instances s)))
               (active_instances s)
             = filter (\<lambda>kv. \<not> ?P kv) (active_instances s)"
    using remove_selected[of "active_instances s" ?P] assms(1) by (simp add: keys_distinct_def)
  have same: "filter (\<lambda>kv. \<not> ?P kv) (active_instances s)
             = filter (\<lambda>(key, inst). \<not> (pid inst = q \<and> app_name inst = nm)) (active_instances s)"
    by (rule filter_cong) auto
  have any: "(filter ?P (active_instances s) \<noteq> [])
             = (\<exists>kv \<in> set (active_instances s). pid (snd kv) = q \<and> app_name (snd kv) = nm)"
    by (simp add: filter_empty_conv case_prod_beta)
  from rem same any assms(2) show ?thesis
    by (simp add: release_by_pid_def Let_def)
qed

lemma release_by_pid_nothing:
  "pd = None \<or> pd = Some 0 \<Longrightarrow> release_by_pid s nm pd = (False, s)"
  by (auto simp: release_by_pid_def)

lemma length_del_present:
  "distinct (map fst d) \<Longrightarrow> dict_contains d k \<Longrightarrow>
     Suc (length (filter (\<lambda>(k', v). k' \<noteq> k) d)) = length d"
proof (induction d)
  case Nil
  then show ?case by (simp add: dict_contains_def)
next
  case (Cons kv d)
  obtain k' v where kv: "kv = (k', v)" by (cases kv)
  show ?case
  proof (cases "k' = k")
    case True
    with Cons.prems kv have "\<forall>x \<in> set d. fst x \<noteq> k" by auto
    then have "filter (\<lambda>(k', v). k' \<noteq> k) d = d"
      by (auto simp: filter_id_conv)
    with True kv show ?thesis by simp
  next
    case False
    with Cons kv show ?thesis by (simp add: dict_contains_def)
  qed
qed

lemma length_filter_less_iff:
  "length (filter P d) < length d \<longleftrightarrow> (\<exists>x \<in> set d. \<not> P x)"
proof
  assume "length (filter P d) < length d"
  then have "filter P d \<noteq> d" by auto
  then show "\<exists>x \<in> set d. \<not> P x" by (auto simp: filter_id_conv)
next
  assume "\<exists>x \<in> set d. \<not> P x"
  then show "length (filter P d) < length d" by (auto intro: length_filter_less)
qed

text \<open>
  C6, as the code has it. On a registry that is a dictionary:
  with a non-empty instance id whose key is registered, \<open>release_port\<close> removes the entry under
  that key and no other, and returns true;
  otherwise (no instance id, an empty one, or one whose key is not registered), with a pid
  other than 0 it removes every entry of that application with that pid and returns whether
  there was one, and with no pid or pid 0 it removes nothing and returns false.
  A selector that matches no entry is not an error, and the call returns true exactly when
  it removed at least one entry.
\<close>

theorem release_port_selectors:
  assumes "keys_distinct s"
  shows "(\<forall>i. iid = Some i \<and> i \<noteq> [] \<and> dict_contains (active_instances s) (instance_key nm i)
            \<longrightarrow> release_port s nm iid pd
                  = (True, s\<lparr>active_instances :=
                                filter (\<lambda>(key, inst). key \<noteq> instance_key nm i)
                                  (active_instances s)\<rparr>)
                \<and> Suc (length (active_instances (snd (release_port s nm iid pd))))
                    = length (active_instances s))
       \<and> ((iid = None \<or> iid = Some []
            \<or> (\<exists>i. iid = Some i \<and> \<not> dict_contains (active_instances s) (instance_key nm i)))
          \<longrightarrow> (\<forall>q. pd = Some q \<and> q \<noteq> 0
                  \<longrightarrow> release_port s nm iid pd
                        = (\<exists>kv \<in> set (active_instances s).
                             pid (snd kv) = q \<and> app_name (snd kv) = nm,
                           s\<lparr>active_instances :=
                                filter (\<lambda>(key, inst). \<not> (pid inst = q \<and> app_name inst = nm))
                                  (active_instances s)\<rparr>))
              \<and> (pd = None \<or> pd = Some 0 \<longrightarrow> release_port s nm iid pd = (False, s)))
       \<and> (fst (release_port s nm iid pd)
            \<longleftrightarrow> length (active_instances (snd (release_port s nm iid pd)))
                  < length (active_instances s))"
proof -
  have hit: "release_port s nm iid pd
               = (True, s\<lparr>active_instances :=
                             filter (\<lambda>(key, inst). key \<noteq> instance_key nm i)
                               (active_instances s)\<rparr>)
           \<and> Suc (length (active_instances (snd (release_port s nm iid pd))))
               = length (active_instances s)"
    if "iid = Some i" "i \<noteq> []" "dict_contains (active_instances s) (instance_key nm i)" for i
    using that assms length_del_present[of "active_instances s" "instance_key nm i"]
    by (simp add: release_port_def dict_del_filter keys_distinct_def)
  have miss: "release_port s nm iid pd = release_by_pid s nm pd"
    if "iid = None \<or> iid = Some []
        \<or> (\<exists>i. iid = Some i \<and> \<not> dict_contains (active_instances s) (instance_key nm i))"
    using that by (auto simp: release_port_def split: option.splits)
  have by_pid: "release_by_pid s nm pd
                  = (\<exists>kv \<in> set (active_instances s). pid (snd kv) = q \<and> app_name (snd kv) = nm,
                     s\<lparr>active_instances :=
                          filter (\<lambda>(key, inst). \<not> (pid inst = q \<and> app_name inst = nm))
                            (active_instances s)\<rparr>)"
    if "pd = Some q" "q \<noteq> 0" for q
    using that release_by_pid_filter[OF assms, of q nm] by simp
  have pid_iff: "fst (release_by_pid s nm pd)
                 \<longleftrightarrow> length (active_instances (snd (release_by_pid s nm pd)))
                       < length (active_instances s)"
  proof (cases "pd = None \<or> pd = Some 0")
    case True
    then show ?thesis using release_by_pid_nothing[of pd s nm] by simp
  next
    case False
    then obtain q where q: "pd = Some q" "q \<noteq> 0" by auto
    show ?thesis
      unfolding by_pid[OF q] by (fastforce simp: length_filter_less_iff)
  qed
  have iff: "fst (release_port s nm iid pd)
               \<longleftrightarrow> length (active_instances (snd (release_port s nm iid pd)))
                     < length (active_instances s)"
  proof (cases "\<exists>i. iid = Some i \<and> i \<noteq> [] \<and> dict_contains (active_instances s) (instance_key nm i)")
    case True
    then obtain i where i: "iid = Some i" "i \<noteq> []"
        "dict_contains (active_instances s) (instance_key nm i)" by blast
    from hit[OF i] show ?thesis by auto
  next
    case False
    then have "iid = None \<or> iid = Some []
        \<or> (\<exists>i. iid = Some i \<and> \<not> dict_contains (active_instances s) (instance_key nm i))"
      by (cases iid) auto
    from miss[OF this] pid_iff show ?thesis by simp
  qed
  have A: "\<forall>i. iid = Some i \<and> i \<noteq> [] \<and> dict_contains (active_instances s) (instance_key nm i)
            \<longrightarrow> release_port s nm iid pd
                  = (True, s\<lparr>active_instances :=
                                filter (\<lambda>(key, inst). key \<noteq> instance_key nm i)
                                  (active_instances s)\<rparr>)
                \<and> Suc (length (active_instances (snd (release_port s nm iid pd))))
                    = length (active_instances s)"
    using hit by blast
  have B: "(iid = None \<or> iid = Some []
            \<or> (\<exists>i. iid = Some i \<and> \<not> dict_contains (active_instances s) (instance_key nm i)))
          \<longrightarrow> (\<forall>q. pd = Some q \<and> q \<noteq> 0
                  \<longrightarrow> release_port s nm iid pd
                        = (\<exists>kv \<in> set (active_instances s).
                             pid (snd kv) = q \<and> app_name (snd kv) = nm,
                           s\<lparr>active_instances :=
                                filter (\<lambda>(key, inst). \<not> (pid inst = q \<and> app_name inst = nm))
                                  (active_instances s)\<rparr>))
              \<and> (pd = None \<or> pd = Some 0 \<longrightarrow> release_port s nm iid pd = (False, s))"
  proof (intro impI conjI allI)
    fix q
    assume m: "iid = None \<or> iid = Some []
            \<or> (\<exists>i. iid = Some i \<and> \<not> dict_contains (active_instances s) (instance_key nm i))"
      and q: "pd = Some q \<and> q \<noteq> 0"
    from miss[OF m] by_pid[of q] q
    show "release_port s nm iid pd
            = (\<exists>kv \<in> set (active_instances s). pid (snd kv) = q \<and> app_name (snd kv) = nm,
               s\<lparr>active_instances :=
                    filter (\<lambda>(key, inst). \<not> (pid inst = q \<and> app_name inst = nm))
                      (active_instances s)\<rparr>)"
      by simp
  next
    assume m: "iid = None \<or> iid = Some []
            \<or> (\<exists>i. iid = Some i \<and> \<not> dict_contains (active_instances s) (instance_key nm i))"
      and n: "pd = None \<or> pd = Some 0"
    from miss[OF m] release_by_pid_nothing[OF n, of s nm]
    show "release_port s nm iid pd = (False, s)" by simp
  qed
  show ?thesis by (rule conjI[OF A conjI[OF B iff]])
qed

theorem release_port_selectors_counterexample:
  "\<not> dict_contains (active_instances state_y) (instance_key ''web'' ''nope'')
   \<and> map fst (active_instances state_y) = [''web:x'', ''web:y'', ''api:z'']
   \<and> fst (release_port state_y ''web'' (Some ''nope'') (Some 7)) = True
   \<and> map fst (active_instances (snd (release_port state_y ''web'' (Some ''nope'') (Some 7))))
       = [''web:x'', ''api:z'']"
  by (simp add: eval_defs state_y_def)

theorem release_port_selectors_witness:
  "keys_distinct state_y
   \<and> dict_contains (active_instances state_y) (instance_key ''web'' ''y'')
   \<and> fst (release_port state_y ''web'' (Some ''y'') (Some 7)) = True
   \<and> map fst (active_instances (snd (release_port state_y ''web'' (Some ''y'') (Some 7))))
       = [''web:x'', ''api:z'']
   \<and> fst (release_port state_y ''api'' None (Some 7)) = True
   \<and> map fst (active_instances (snd (release_port state_y ''api'' None (Some 7))))
       = [''web:x'', ''web:y'']
   \<and> release_port state_y ''api'' (Some ''q'') (Some 0) = (False, state_y)"
proof -
  have k: "keys_distinct state_y" by (simp add: keys_distinct_def state_y_def)
  have c: "dict_contains (active_instances state_y) (instance_key ''web'' ''y'')"
    by (simp add: dict_contains_def instance_key_def state_y_def)
  have n: "\<not> dict_contains (active_instances state_y) (instance_key ''api'' ''q'')"
    by (simp add: dict_contains_def instance_key_def state_y_def)
  from release_port_selectors[OF k, of "Some ''y''" "''web''" "Some 7"] c
  have a: "release_port state_y ''web'' (Some ''y'') (Some 7)
             = (True, state_y\<lparr>active_instances :=
                  filter (\<lambda>(key, inst). key \<noteq> instance_key ''web'' ''y'')
                    (active_instances state_y)\<rparr>)"
    by simp
  from release_port_selectors[OF k, of None "''api''" "Some 7"]
  have b: "release_port state_y ''api'' None (Some 7)
             = (\<exists>kv \<in> set (active_instances state_y). pid (snd kv) = 7 \<and> app_name (snd kv) = ''api'',
                state_y\<lparr>active_instances :=
                  filter (\<lambda>(key, inst). \<not> (pid inst = 7 \<and> app_name inst = ''api''))
                    (active_instances state_y)\<rparr>)"
    by simp
  from release_port_selectors[OF k, of "Some ''q''" "''api''" "Some 0"] n
  have d: "release_port state_y ''api'' (Some ''q'') (Some 0) = (False, state_y)"
    by simp
  show ?thesis
    unfolding a b d using k c by (simp add: state_y_def instance_key_def)
qed

section \<open>Keys of the registry\<close>

text \<open>
  The key is the pair as long as the application name has no colon: then two pairs with the
  same key are the same pair.
\<close>

lemma takeWhile_colon:
  "CHR '':'' \<notin> set a \<Longrightarrow> takeWhile (\<lambda>c. c \<noteq> CHR '':'') (a @ '':'' @ i) = a"
  by (induction a) auto

lemma instance_key_inj:
  assumes "CHR '':'' \<notin> set a" and "CHR '':'' \<notin> set b"
    and "instance_key a i = instance_key b j"
  shows "a = b \<and> i = j"
proof -
  from assms(3) have "takeWhile (\<lambda>c. c \<noteq> CHR '':'') (a @ '':'' @ i)
                      = takeWhile (\<lambda>c. c \<noteq> CHR '':'') (b @ '':'' @ j)"
    by (simp add: instance_key_def)
  with takeWhile_colon[OF assms(1), of i] takeWhile_colon[OF assms(2), of j]
  have "a = b" by metis
  with assms(3) show ?thesis by (simp add: instance_key_def)
qed

text \<open>
  C8. The registry is keyed by the string \<open>app_name:instance_id\<close>, and two different pairs can
  give the same string. After application \<open>a\<close> has allocated for instance \<open>b:c\<close>, a call of
  \<open>allocate_port\<close> for application \<open>a:b\<close>, instance \<open>c\<close> reads the entry of the other pair and
  returns its port, and \<open>release_port\<close> for \<open>a:b\<close>, \<open>c\<close> removes that entry.
\<close>

theorem instance_key_collision:
  "(''a'', ''b:c'') \<noteq> (''a:b'', ''c'')
   \<and> instance_key ''a'' ''b:c'' = instance_key ''a:b'' ''c''
   \<and> run_calls (fresh_manager default_config None) [Allocate env_w ''a'' (Some ''b:c'') 100]
       = state_c
   \<and> allocate_port env_w state_c ''a:b'' (Some ''c'') 4242 = (Inr (8100, ''c''), state_c)
   \<and> release_port state_c ''a:b'' (Some ''c'') None
       = (True, state_c\<lparr>active_instances := []\<rparr>)"
  by (simp add: eval_defs state_c_def env_w_def)

section \<open>The configuration is outside the registry's operations\<close>

lemma scan_and_insert_config:
  "config (snd (scan_and_insert env s nm iid pd)) = config s
   \<and> config_file (snd (scan_and_insert env s nm iid pd)) = config_file s"
  by (simp add: scan_and_insert_def split: sum.splits option.splits)

lemma allocate_port_config:
  "config (snd (allocate_port env s nm iid pd)) = config s
   \<and> config_file (snd (allocate_port env s nm iid pd)) = config_file s"
  by (simp add: allocate_port_def Let_def scan_and_insert_config split: option.splits sum.splits)

lemma release_port_config:
  "config (snd (release_port s nm iid pd)) = config s
   \<and> config_file (snd (release_port s nm iid pd)) = config_file s"
  by (simp add: release_port_def release_by_pid_def Let_def split: option.splits)

lemma cleanup_config:
  "config (snd (cleanup_dead_instances env s)) = config s
   \<and> config_file (snd (cleanup_dead_instances env s)) = config_file s"
  by (simp add: cleanup_dead_instances_def split: sum.splits)

lemma reads_after_cleanup:
  "snd (get_active_instances env s) = snd (cleanup_dead_instances env s)
   \<and> snd (get_instances_for_app env s nm) = snd (cleanup_dead_instances env s)"
  by (simp add: get_active_instances_def get_instances_for_app_def
      split: prod.splits sum.splits)

lemma step_call_config:
  "config (step_call s c) = config s \<and> config_file (step_call s c) = config_file s"
  by (cases c) (simp_all add: allocate_port_config release_port_config cleanup_config)

lemma run_calls_config:
  "config (run_calls s calls) = config s \<and> config_file (run_calls s calls) = config_file s"
  unfolding run_calls_def
  by (induction calls arbitrary: s) (simp_all add: step_call_config)

text \<open>
  C9. \<open>allocate_port\<close>, \<open>release_port\<close> and \<open>cleanup_dead_instances\<close>, alone or in any sequence,
  leave the \<open>CoordinatorConfig\<close> (coordinator port, default range, registered applications) and
  the configuration file as they are, and so do the two read operations. \<open>add_app\<close> and
  \<open>remove_app\<close> are the operations that change the configuration, and they write it to the
  file.
\<close>

theorem registry_operations_keep_config:
  "config (snd (allocate_port env s nm iid pd)) = config s
   \<and> config_file (snd (allocate_port env s nm iid pd)) = config_file s
   \<and> config (snd (release_port s nm iid rp)) = config s
   \<and> config_file (snd (release_port s nm iid rp)) = config_file s
   \<and> config (snd (cleanup_dead_instances env s)) = config s
   \<and> config_file (snd (cleanup_dead_instances env s)) = config_file s
   \<and> config (snd (get_active_instances env s)) = config s
   \<and> config_file (snd (get_active_instances env s)) = config_file s
   \<and> config (snd (get_instances_for_app env s nm)) = config s
   \<and> config_file (snd (get_instances_for_app env s nm)) = config_file s
   \<and> config (run_calls s calls) = config s
   \<and> config_file (run_calls s calls) = config_file s
   \<and> get_app (add_app s app) (name app) = Some app
   \<and> config_file (add_app s app) = Some (save_config (config (add_app s app)))
   \<and> get_app (snd (remove_app s nm)) nm = None
   \<and> config_file (snd (remove_app s nm))
       = (if dict_contains (apps (config s)) nm
          then Some (save_config (config (snd (remove_app s nm)))) else config_file s)"
proof -
  have add1: "get_app (add_app s app) (name app) = Some app"
    by (simp add: get_app_def add_app_def Let_def dict_get_def dict_set_def update_conv')
  have add2: "config_file (add_app s app) = Some (save_config (config (add_app s app)))"
    by (simp add: add_app_def Let_def)
  have rem1: "get_app (snd (remove_app s nm)) nm = None"
    using dict_contains_del[of "apps (config s)" nm]
    by (simp add: get_app_def remove_app_def Let_def dict_get_None)
  have rem2: "config_file (snd (remove_app s nm))
       = (if dict_contains (apps (config s)) nm
          then Some (save_config (config (snd (remove_app s nm)))) else config_file s)"
    by (simp add: remove_app_def Let_def)
  have reads: "config (snd (get_active_instances env s)) = config s
     \<and> config_file (snd (get_active_instances env s)) = config_file s
     \<and> config (snd (get_instances_for_app env s nm)) = config s
     \<and> config_file (snd (get_instances_for_app env s nm)) = config_file s"
    by (simp add: reads_after_cleanup cleanup_config)
  from allocate_port_config[of env s nm iid pd] release_port_config[of s nm iid rp]
    cleanup_config[of env s] run_calls_config[of s calls] reads add1 add2 rem1 rem2
  show ?thesis by simp
qed

theorem registry_operations_keep_config_witness:
  "config (snd (allocate_port env_w state_y ''db'' None 100)) = default_config
   \<and> config_file (snd (allocate_port env_w state_y ''db'' None 100)) = None
   \<and> config (snd (release_port state_y ''web'' (Some ''x'') None)) = default_config
   \<and> config (snd (cleanup_dead_instances env_w state_y)) = default_config
   \<and> config_file (add_app state_y
        \<lparr>name = ''db'', path = ''/srv/db'', command = ''uvicorn'', port_strategy = DEDICATED,
         app_port = Some 8080, port_range = None, ports = None, port_step = None\<rparr>) \<noteq> None"
  using registry_operations_keep_config[of env_w state_y "''db''" None 100 "None" "[]"
      "\<lparr>name = ''db'', path = ''/srv/db'', command = ''uvicorn'', port_strategy = DEDICATED,
         app_port = Some 8080, port_range = None, ports = None, port_step = None\<rparr>"]
    registry_operations_keep_config[of env_w state_y "''web''" "Some ''x''" 100 "None" "[]"]
  by (simp add: state_y_def)

section \<open>Saving and loading the configuration\<close>

lemma as_ints_JInt: "as_ints (map JInt ps) = Inr ps"
  by (induction ps) (simp_all add: as_int_def bind_result_def)

lemma strategy_of_value_value: "strategy_of_value (strategy_value s) = Inr s"
  by (cases s) (simp_all add: strategy_of_value_def)

lemma SteppedPortConfig_init_saved:
  "stepped_ok st \<Longrightarrow>
     SteppedPortConfig_init
       [(''start'', JInt (start st)), (''step'', JInt (step st)), (''count'', JInt (count st))]
     = Inr st"
  by (simp add: SteppedPortConfig_init_def stepped_ok_def as_int_def bind_result_def)

lemma app_data_name: "app_data (app\<lparr>name := nm\<rparr>) = app_data app"
  by (simp add: app_data_def)

lemma load_app_saved:
  assumes "app_fields_ok app"
  shows "load_app nm (app_data app) = Inr (app\<lparr>name := nm\<rparr>)"
proof -
  obtain d where d: "app_data app = JObj d" by (simp add: app_data_def)
  have d_eq: "d = [(''path'', JStr (path app)),
      (''command'', JStr (command app)),
      (''port_strategy'', JStr (strategy_value (port_strategy app)))]
     @ (case app_port app of None \<Rightarrow> [] | Some p \<Rightarrow> [(''port'', JInt p)])
     @ (case port_range app of None \<Rightarrow> []
        | Some (a, b) \<Rightarrow> [(''port_range'', JList [JInt a, JInt b])])
     @ (case ports app of None \<Rightarrow> [] | Some ps \<Rightarrow> [(''ports'', JList (map JInt ps))])
     @ (case port_step app of None \<Rightarrow> []
        | Some st \<Rightarrow> [(''port_step'', JObj [(''start'', JInt (start st)),
                                            (''step'', JInt (step st)),
                                            (''count'', JInt (count st))])])"
    using d by (simp add: app_data_def)
  have f_path: "map_of d ''path'' = Some (JStr (path app))"
    by (simp add: d_eq)
  have f_cmd: "map_of d ''command'' = Some (JStr (command app))"
    by (simp add: d_eq)
  have f_strat: "map_of d ''port_strategy'' = Some (JStr (strategy_value (port_strategy app)))"
    by (simp add: d_eq)
  have f_port: "map_of d ''port'' = (case app_port app of None \<Rightarrow> None | Some p \<Rightarrow> Some (JInt p))"
    by (simp add: d_eq split: option.splits)
  have f_range: "map_of d ''port_range''
      = (case port_range app of None \<Rightarrow> None | Some (a, b) \<Rightarrow> Some (JList [JInt a, JInt b]))"
    by (simp add: d_eq split: option.splits)
  have f_ports: "map_of d ''ports''
      = (case ports app of None \<Rightarrow> None | Some ps \<Rightarrow> Some (JList (map JInt ps)))"
    by (simp add: d_eq split: option.splits)
  have f_step: "map_of d ''port_step''
      = (case port_step app of None \<Rightarrow> None
         | Some st \<Rightarrow> Some (JObj [(''start'', JInt (start st)), (''step'', JInt (step st)),
                                  (''count'', JInt (count st))]))"
    by (simp add: d_eq split: option.splits)
  have r_step: "(case map_of d ''port_step'' of
                   None \<Rightarrow> Inr None
                 | Some JNull \<Rightarrow> Inr None
                 | Some (JObj sd) \<Rightarrow> bind_result (SteppedPortConfig_init sd) (\<lambda>st. Inr (Some st))
                 | Some _ \<Rightarrow> Inl ValidationError) = Inr (port_step app)"
    using assms
    by (simp add: f_step app_fields_ok_def SteppedPortConfig_init_saved bind_result_def
        split: option.splits)
  have r_path: "(case map_of d ''path'' of None \<Rightarrow> Inl ValidationError | Some v \<Rightarrow> as_str v)
                  = Inr (path app)"
    by (simp add: f_path as_str_def)
  have r_cmd: "(case map_of d ''command'' of
                  None \<Rightarrow> Inr ''uvicorn app.main:app --reload''
                | Some v \<Rightarrow> as_str v) = Inr (command app)"
    by (simp add: f_cmd as_str_def)
  have r_strat: "(case map_of d ''port_strategy'' of
                    None \<Rightarrow> Inr ANY
                  | Some v \<Rightarrow> bind_result (as_str v) strategy_of_value) = Inr (port_strategy app)"
    by (simp add: f_strat as_str_def bind_result_def strategy_of_value_value)
  have r_port: "(case map_of d ''port'' of
                   None \<Rightarrow> Inr None
                 | Some JNull \<Rightarrow> Inr None
                 | Some v \<Rightarrow> bind_result (as_int v) (\<lambda>p.
                     if 1024 \<le> p \<and> p \<le> 65535 then Inr (Some p) else Inl ValidationError))
                  = Inr (app_port app)"
    using assms
    by (auto simp: f_port app_fields_ok_def as_int_def bind_result_def split: option.splits)
  have r_range: "(case map_of d ''port_range'' of
                    None \<Rightarrow> Inr None
                  | Some JNull \<Rightarrow> Inr None
                  | Some v \<Rightarrow> bind_result (as_int_pair v) (\<lambda>r. Inr (Some r)))
                  = Inr (port_range app)"
    by (simp add: f_range as_int_pair_def bind_result_def split: option.splits prod.splits)
  have r_ports: "(case map_of d ''ports'' of
                    None \<Rightarrow> Inr None
                  | Some JNull \<Rightarrow> Inr None
                  | Some (JList js) \<Rightarrow> bind_result (as_ints js) (\<lambda>ps. Inr (Some ps))
                  | Some _ \<Rightarrow> Inl ValidationError) = Inr (ports app)"
    by (simp add: f_ports as_ints_JInt bind_result_def split: option.splits)
  have "load_app nm (JObj d)
          = Inr \<lparr>name = nm, path = path app, command = command app,
                 port_strategy = port_strategy app, app_port = app_port app,
                 port_range = port_range app, ports = ports app, port_step = port_step app\<rparr>"
    unfolding load_app_def json.case r_step r_path r_cmd r_strat r_port r_range r_ports
    by (simp add: bind_result_def)
  with d show ?thesis by simp
qed

lemma load_apps_saved:
  "list_all (\<lambda>(nm, app). app_fields_ok app) xs \<Longrightarrow>
     load_apps (map (\<lambda>(nm, app). (nm, app_data app)) xs)
       = Inr (map (\<lambda>(nm, app). (nm, app\<lparr>name := nm\<rparr>)) xs)"
  by (induction xs) (auto simp: load_app_saved bind_result_def)

lemma load_config_saved:
  assumes "valid_config cfg"
  shows "load_config (save_config cfg) = Inr (named_by_key cfg)"
proof -
  obtain a b where r: "default_port_range cfg = (a, b)" by (cases "default_port_range cfg")
  from assms have "list_all (\<lambda>(nm, app). app_fields_ok app) (apps cfg)"
    by (simp add: valid_config_def)
  from load_apps_saved[OF this] r show ?thesis
    by (simp add: load_config_def save_config_def named_by_key_def as_int_pair_def as_int_def
        bind_result_def)
qed

lemma save_config_named_by_key: "save_config (named_by_key cfg) = save_config cfg"
proof -
  have "map (\<lambda>(nm, app). (nm, app_data app)) (map (\<lambda>(nm, app). (nm, app\<lparr>name := nm\<rparr>)) xs)
          = map (\<lambda>(nm, app). (nm, app_data app)) xs" for xs :: "(string \<times> AppConfig) list"
    by (induction xs) (auto simp: app_data_name)
  then show ?thesis by (simp add: save_config_def named_by_key_def)
qed

lemma valid_config_named_by_key: "valid_config cfg \<Longrightarrow> valid_config (named_by_key cfg)"
proof -
  have k: "map (fst \<circ> (\<lambda>(nm, app). (nm, app\<lparr>name := nm\<rparr>))) xs = map fst xs"
    for xs :: "(string \<times> AppConfig) list"
    by (induction xs) auto
  have f: "list_all (\<lambda>(nm, app). app_fields_ok app) xs \<Longrightarrow>
           list_all (\<lambda>(nm, app). app_fields_ok app) (map (\<lambda>(nm, app). (nm, app\<lparr>name := nm\<rparr>)) xs)"
    for xs :: "(string \<times> AppConfig) list"
    by (induction xs) (auto simp: app_fields_ok_def)
  assume "valid_config cfg"
  then show ?thesis by (simp add: valid_config_def named_by_key_def k f)
qed

lemma named_by_key_idem: "named_by_key (named_by_key cfg) = named_by_key cfg"
proof -
  have "map (\<lambda>(nm, app). (nm, app\<lparr>name := nm\<rparr>)) (map (\<lambda>(nm, app). (nm, app\<lparr>name := nm\<rparr>)) xs)
          = map (\<lambda>(nm, app). (nm, app\<lparr>name := nm\<rparr>)) xs" for xs :: "(string \<times> AppConfig) list"
    by (induction xs) auto
  then show ?thesis by (simp add: named_by_key_def)
qed

text \<open>
  C7. For every valid \<open>CoordinatorConfig\<close>, loading the saved document succeeds, and saving what
  was loaded gives the same document again: \<open>save(load(save(cfg))) = save(cfg)\<close>. The loaded
  configuration has the \<open>coordinator_port\<close>, the \<open>default_port_range\<close> and, under the same keys
  in the same order, the applications of \<open>cfg\<close> with all their strategy fields; each
  application is named by its key. Loading the second document gives the same configuration
  as loading the first.
\<close>

theorem config_round_trip:
  assumes "valid_config cfg"
  shows "\<exists>cfg'. load_config (save_config cfg) = Inr cfg'
           \<and> save_config cfg' = save_config cfg
           \<and> load_config (save_config cfg') = Inr cfg'
           \<and> coordinator_port cfg' = coordinator_port cfg
           \<and> default_port_range cfg' = default_port_range cfg
           \<and> apps cfg' = map (\<lambda>(nm, app). (nm, app\<lparr>name := nm\<rparr>)) (apps cfg)"
proof (intro exI conjI)
  show "load_config (save_config cfg) = Inr (named_by_key cfg)"
    by (rule load_config_saved[OF assms])
  show "save_config (named_by_key cfg) = save_config cfg"
    by (rule save_config_named_by_key)
  show "load_config (save_config (named_by_key cfg)) = Inr (named_by_key cfg)"
    using load_config_saved[OF valid_config_named_by_key[OF assms]]
    by (simp add: named_by_key_idem)
qed (simp_all add: named_by_key_def)

theorem config_round_trip_witness:
  "valid_config config_w
   \<and> load_config (save_config config_w) = Inr config_w
   \<and> (\<exists>cfg'. load_config (save_config config_w) = Inr cfg' \<and> save_config cfg' = save_config config_w)"
proof -
  have v: "valid_config config_w"
    by (simp add: valid_config_def config_w_def app_fields_ok_def stepped_ok_def)
  have n: "named_by_key config_w = config_w"
    by (simp add: named_by_key_def config_w_def)
  from config_round_trip[OF v] load_config_saved[OF v] n v show ?thesis by auto
qed

end
